theory Spec2Isabelle
  imports Main "HOL-Library.Word"
begin

unbundle bit_operations_syntax

section \<open>Bytes, errors and typed-array primitives\<close>

text \<open>
  A \<open>Uint8Array\<close> is a list of bytes. JavaScript's bitwise operators work on 32-bit
  integers, so every value that only flows through \<open>&\<close>, \<open>|\<close>, \<open>^\<close>, \<open><<\<close> and
  \<open>>>>\<close> is a \<open>32 word\<close>; a value that is read as a Number is an \<open>int\<close>.
\<close>

type_synonym byte = "8 word"

text \<open>
  Every \<open>throw\<close> of the two programs and the two faults of the runtime they can run into.
  The programs throw plain \<open>Error\<close> objects that differ by their message:
  \<^item> \<open>InvalidFieldLength\<close>: "Invalid array length. Expected multiple of N."
  \<^item> \<open>InvalidMagicSignature\<close>: "Invalid magic signature."
  \<^item> \<open>UnexpectedEndOfStream\<close>: "File stream finished parsing"
  \<^item> \<open>Stop\<close>: "Stop"
  \<^item> \<open>RangeError\<close>: the runtime's error for a \<open>DataView\<close> access outside the buffer and
    for an invalid array length
  \<^item> \<open>TypeError\<close>: the runtime's error for reading a property of \<open>undefined\<close>
  \<^item> \<open>HeapExhausted\<close>: not an exception; the runtime ends the process when an array
    does not fit into its heap
  \<open>TruncatedRecord\<close> is the fourth kind of the documented taxonomy; no statement of the
  programs throws it.
\<close>

datatype error =
    InvalidFieldLength
  | InvalidMagicSignature
  | TruncatedRecord
  | UnexpectedEndOfStream
  | Stop
  | RangeError
  | TypeError
  | HeapExhausted

text \<open>
  What the runtime can hold is not in the programs; it is a parameter of the model:
  \<^item> \<open>bufferLimit\<close>: the largest length for which \<open>new Uint8Array(n)\<close> gets its buffer;
    above it the constructor throws a RangeError ("Array buffer allocation failed");
  \<^item> \<open>arrayLimit\<close>: the largest length for which \<open>Array(n).fill(0).map(f)\<close> fits into the
    heap; above it the process is ended while the array is filled.
\<close>

record limits =
  bufferLimit :: nat
  arrayLimit :: nat

text \<open>Sequencing of steps that may throw: the first error ends the computation.\<close>

definition bindE :: "error + 'a \<Rightarrow> ('a \<Rightarrow> error + 'b) \<Rightarrow> error + 'b" where
  "bindE m f = (case m of Inl e \<Rightarrow> Inl e | Inr x \<Rightarrow> f x)"

fun mapE :: "('a \<Rightarrow> error + 'b) \<Rightarrow> 'a list \<Rightarrow> error + 'b list" where
  "mapE f [] = Inr []"
| "mapE f (x # xs) = bindE (f x) (\<lambda>y. bindE (mapE f xs) (\<lambda>ys. Inr (y # ys)))"

text \<open>\<open>Uint8Array.prototype.slice(start, end)\<close>: a negative index counts from the end,
  every index is clamped to the array, and an end before the start gives the empty array.
  Nothing is thrown.\<close>

definition sliceJS :: "'a list \<Rightarrow> int \<Rightarrow> int \<Rightarrow> 'a list" where
  "sliceJS xs start finish =
     (let n = int (length xs);
          k = (if start < 0 then max (n + start) 0 else min start n);
          f = (if finish < 0 then max (n + finish) 0 else min finish n)
      in take (nat (f - k)) (drop (nat k) xs))"

text \<open>\<open>slice(start)\<close>, with the end left out.\<close>

definition sliceFrom :: "'a list \<Rightarrow> int \<Rightarrow> 'a list" where
  "sliceFrom xs start = sliceJS xs start (int (length xs))"

text \<open>The bits of a byte sequence, first byte most significant (\<open>be_word\<close>) or least
  significant (\<open>le_word\<close>); the \<open>DataView\<close> getters read them so.\<close>

definition be_word :: "byte list \<Rightarrow> 'a::len word" where
  "be_word xs = foldl (\<lambda>acc b. push_bit 8 acc OR ucast b) 0 xs"

definition le_word :: "byte list \<Rightarrow> 'a::len word" where
  "le_word xs = be_word (rev xs)"

text \<open>A \<open>DataView\<close> over the whole array: reading \<open>n\<close> bytes at \<open>offset\<close> throws a
  RangeError unless \<open>0 \<le> offset\<close> and \<open>offset + n \<le> byteLength\<close>.\<close>

definition viewBytes :: "byte list \<Rightarrow> int \<Rightarrow> nat \<Rightarrow> error + byte list" where
  "viewBytes array offset n =
     (if offset < 0 \<or> int (length array) < offset + int n then Inl RangeError
      else Inr (take n (drop (nat offset) array)))"

definition getUint8 :: "byte list \<Rightarrow> int \<Rightarrow> error + int" where
  "getUint8 array offset = bindE (viewBytes array offset 1) (\<lambda>bs. Inr (uint (le_word bs :: 8 word)))"

definition getUint16LE :: "byte list \<Rightarrow> int \<Rightarrow> error + int" where
  "getUint16LE array offset = bindE (viewBytes array offset 2) (\<lambda>bs. Inr (uint (le_word bs :: 16 word)))"

definition getUint32LE :: "byte list \<Rightarrow> int \<Rightarrow> error + int" where
  "getUint32LE array offset = bindE (viewBytes array offset 4) (\<lambda>bs. Inr (uint (le_word bs :: 32 word)))"

definition getInt32LE :: "byte list \<Rightarrow> int \<Rightarrow> error + int" where
  "getInt32LE array offset = bindE (viewBytes array offset 4) (\<lambda>bs. Inr (sint (le_word bs :: 32 word)))"

section \<open>CRC (parseOgg.ts, lines 32-55)\<close>

text \<open>One round of the inner loop of \<open>makeCRCTable\<close>:
  \<open>c = c & 1 ? 0x04c11db7 ^ (c >>> 1) : c >>> 1\<close>.\<close>

definition crcRound :: "32 word \<Rightarrow> 32 word" where
  "crcRound c = (if c AND 1 \<noteq> 0 then 0x04c11db7 XOR drop_bit 1 c else drop_bit 1 c)"

definition crcEntry :: "nat \<Rightarrow> 32 word" where
  "crcEntry n = (crcRound ^^ 8) (of_nat n)"

definition makeCRCTable :: "32 word list" where
  "makeCRCTable = map crcEntry [0..<256]"

definition crcTable :: "32 word list" where
  "crcTable = makeCRCTable"

text \<open>The loop body of \<open>crc32\<close>: \<open>crc = (crc >>> 8) ^ crcTable[(crc ^ x[i]) & 0xff]\<close>.
  The index is below 256, inside the table.\<close>

definition crcStep :: "32 word \<Rightarrow> byte \<Rightarrow> 32 word" where
  "crcStep crc b = drop_bit 8 crc XOR crcTable ! unat ((crc XOR ucast b) AND 0xff)"

text \<open>\<open>crc\<close> starts as \<open>0 ^ -1\<close> and the result is \<open>(crc ^ -1) >>> 0\<close>, the unsigned
  reading of the 32 bits.\<close>

definition crc32 :: "byte list \<Rightarrow> 32 word" where
  "crc32 x = foldl crcStep (0 XOR (-1)) x XOR (-1)"

section \<open>The byte source\<close>

text \<open>
  Both programs pull their bytes from a \<open>Deno.FsFile\<close>. The file is the list of its unread
  bytes. \<open>file.read(p)\<close> with a buffer \<open>p\<close> of \<open>n\<close> bytes, all zero when it is passed:
  \<^item> an empty buffer reads nothing and resolves to 0, also at the end of the file;
  \<^item> at the end of the file it resolves to \<open>null\<close> (\<open>None\<close>) and leaves \<open>p\<close> as it is;
  \<^item> otherwise it copies the next \<open>min n (length s)\<close> bytes to the front of \<open>p\<close>; the
    bytes of \<open>p\<close> behind them stay zero.
  The result is the buffer after the call and the rest of the file.
\<close>

definition fsRead :: "nat \<Rightarrow> byte list \<Rightarrow> (byte list \<times> byte list) option" where
  "fsRead n s =
     (if n = 0 then Some ([], s)
      else if s = [] then None
      else Some (take n s @ replicate (n - length s) 0, drop n s))"

section \<open>Container A (unnamed/part_000)\<close>

subsection \<open>Primitive decoders (lines 3-69)\<close>

text \<open>\<open>uint\<close>: \<open>result = (result << 8) + uint8Array[i]\<close>. The shift works on the 32-bit
  integer of \<open>result\<close> and gives a signed 32-bit integer; the addition is the addition of
  Numbers.\<close>

definition uintStep :: "int \<Rightarrow> byte \<Rightarrow> int" where
  "uintStep result b = sint (push_bit 8 (word_of_int result :: 32 word)) + uint b"

definition uint_js :: "byte list \<Rightarrow> int" where
  "uint_js uint8Array = foldl uintStep 0 uint8Array"

text \<open>\<open>float64\<close>: the length check, then \<open>getFloat64(0, false)\<close>. The double is kept as
  its 64 bits; its reading as an IEEE-754 number is not modelled.\<close>

definition float64 :: "byte list \<Rightarrow> error + 64 word" where
  "float64 array = (if length array \<noteq> 8 then Inl InvalidFieldLength else Inr (be_word array))"

text \<open>\<open>Number(bigint)\<close>: exact below \<open>2 ^ 53\<close> in absolute value; beyond, the nearest
  number with a 53-bit significand, a tie going to the even significand.\<close>

fun bitLength :: "nat \<Rightarrow> nat" where
  "bitLength n = (if n = 0 then 0 else Suc (bitLength (n div 2)))"

declare bitLength.simps [simp del]

definition toNumber :: "int \<Rightarrow> int" where
  "toNumber k =
     (if \<bar>k\<bar> < 2 ^ 53 then k
      else
        (let m = nat \<bar>k\<bar>;
             e = bitLength m - 53;
             q = m div 2 ^ e;
             r = m mod 2 ^ e;
             q' = (if 2 ^ e < 2 * r \<or> (2 * r = 2 ^ e \<and> odd q) then q + 1 else q)
         in sgn k * int (q' * 2 ^ e)))"

text \<open>\<open>int64\<close>: the length check, then \<open>Number(getBigInt64(0, false))\<close>.\<close>

definition int64 :: "byte list \<Rightarrow> error + int" where
  "int64 array = (if length array \<noteq> 8 then Inl InvalidFieldLength
                  else Inr (toNumber (sint (be_word array :: 64 word))))"

definition int32 :: "byte list \<Rightarrow> error + int" where
  "int32 array = (if length array \<noteq> 4 then Inl InvalidFieldLength
                  else Inr (sint (be_word array :: 32 word)))"

text \<open>\<open>packetsTable\<close>: \<open>currentNumber = (currentNumber << 7) | (byte & 0x7f)\<close> on 32-bit
  integers; a pushed number is the signed reading of the 32 bits.\<close>

fun packetsLoop :: "byte list \<Rightarrow> 32 word \<Rightarrow> int list \<Rightarrow> int list" where
  "packetsLoop [] currentNumber numbers = numbers"
| "packetsLoop (byte # rest) currentNumber numbers =
     (let currentNumber' = push_bit 7 currentNumber OR ucast (byte AND 0x7f)
      in if byte AND 0x80 = 0
         then packetsLoop rest 0 (numbers @ [sint currentNumber'])
         else packetsLoop rest currentNumber' numbers)"

definition packetsTable :: "byte list \<Rightarrow> int list" where
  "packetsTable data = packetsLoop data 0 []"

text \<open>\<open>str\<close>: the text is kept as the bytes that \<open>TextDecoder\<close> is given. The decoder
  drops a byte-order mark at the front and replaces malformed sequences; neither gives an
  ASCII text of as many characters as there are bytes, so a decoded four-byte tag equals
  an ASCII literal of four characters exactly when the bytes are the literal's.\<close>

definition str :: "byte list \<Rightarrow> byte list" where
  "str array = array"

subsection \<open>Headers (lines 74-116)\<close>

record ICAFFileHeader =
  fileType :: "byte list"
  fileVersion :: int
  fileFlags :: int

record ICAFChunkHeader =
  chunkType :: "byte list"
  chunkSize :: int

text \<open>\<open>await file.read(buffer)\<close> with the result thrown away: at the end of the file the
  buffer stays zero and nothing is thrown.\<close>

definition readInto :: "nat \<Rightarrow> byte list \<Rightarrow> byte list \<times> byte list" where
  "readInto n file = (case fsRead n file of None \<Rightarrow> (replicate n 0, file) | Some r \<Rightarrow> r)"

definition readCafHeader :: "byte list \<Rightarrow> ICAFFileHeader \<times> byte list" where
  "readCafHeader file =
     (let (mFileType, file1) = readInto 4 file;
          (mFileVersion, file2) = readInto 2 file1;
          (mFileFlags, file3) = readInto 2 file2
      in (\<lparr>fileType = str mFileType, fileVersion = uint_js mFileVersion,
           fileFlags = uint_js mFileFlags\<rparr>, file3))"

definition readChunkHeader :: "byte list \<Rightarrow> error + (ICAFChunkHeader \<times> byte list)" where
  "readChunkHeader file =
     (let (mChunkType, file1) = readInto 4 file;
          (mChunkSize, file2) = readInto 8 file1
      in bindE (int64 mChunkSize)
           (\<lambda>size. Inr (\<lparr>chunkType = str mChunkType, chunkSize = size\<rparr>, file2)))"

subsection \<open>Record decoders (lines 118-255)\<close>

record ICAFAudioFormat =
  sampleRate :: "64 word"
  formatID :: "byte list"
  formatFlags :: int
  bytesPerPacket :: int
  framesPerPacket :: int
  channelsPerFrame :: int
  bitsPerChannel :: int

definition parseAudioFormat :: "byte list \<Rightarrow> error + ICAFAudioFormat" where
  "parseAudioFormat uint8Array =
     (let mSampleRate = sliceJS uint8Array 0 8;
          mFormatID = sliceJS uint8Array 8 12;
          mFormatFlags = sliceJS uint8Array 12 16;
          mBytesPerPacket = sliceJS uint8Array 16 20;
          mFramesPerPacket = sliceJS uint8Array 20 24;
          mChannelsPerFrame = sliceJS uint8Array 24 28;
          mBitsPerChannel = sliceJS uint8Array 28 32
      in bindE (float64 mSampleRate) (\<lambda>rate.
           Inr \<lparr>sampleRate = rate, formatID = str mFormatID,
                formatFlags = uint_js mFormatFlags,
                bytesPerPacket = uint_js mBytesPerPacket,
                framesPerPacket = uint_js mFramesPerPacket,
                channelsPerFrame = uint_js mChannelsPerFrame,
                bitsPerChannel = uint_js mBitsPerChannel\<rparr>))"

record ICAFChannelDescription =
  channelLabel :: int
  channelFlags :: int
  coordinates :: "64 word \<times> 64 word \<times> 64 word"

record ICAFChannelLayout =
  channelLayoutTag :: int
  channelBitmap :: int
  numberChannelDescriptions :: int
  channelDescriptions :: "ICAFChannelDescription list"

definition parseChannelDescription :: "byte list \<Rightarrow> error + ICAFChannelDescription" where
  "parseChannelDescription uint8Array =
     (let mChannelLabel = sliceJS uint8Array 0 4;
          mChannelFlags = sliceJS uint8Array 4 8;
          mCoordinates1 = sliceJS uint8Array 8 16;
          mCoordinates2 = sliceJS uint8Array 16 24;
          mCoordinates3 = sliceJS uint8Array 24 32
      in bindE (float64 mCoordinates1) (\<lambda>c1.
         bindE (float64 mCoordinates2) (\<lambda>c2.
         bindE (float64 mCoordinates3) (\<lambda>c3.
           Inr \<lparr>channelLabel = uint_js mChannelLabel,
                channelFlags = uint_js mChannelFlags,
                coordinates = (c1, c2, c3)\<rparr>))))"

text \<open>\<open>Array(numberChannelDescriptions)\<close> throws a RangeError for a negative length
  (\<open>uint\<close> of four bytes is negative when the first has its top bit set). \<open>fill(0)\<close>
  writes every element before \<open>map\<close> starts: a length above \<open>arrayLimit\<close> ends the
  process there. \<open>map\<close> calls the decoder for \<open>i = 0, 1, ...\<close> in order, and the first
  throw ends it.\<close>

definition parseChannelLayout :: "limits \<Rightarrow> byte list \<Rightarrow> error + ICAFChannelLayout" where
  "parseChannelLayout lim uint8Array =
     (let mChannelLayoutTag = sliceJS uint8Array 0 4;
          mChannelBitmap = sliceJS uint8Array 4 8;
          mNumberChannelDescriptions = sliceJS uint8Array 8 12;
          numberChannelDescriptions = uint_js mNumberChannelDescriptions
      in if numberChannelDescriptions < 0 then Inl RangeError
         else if int (arrayLimit lim) < numberChannelDescriptions then Inl HeapExhausted
         else bindE (mapE (\<lambda>i. parseChannelDescription
                             (sliceJS uint8Array (12 + int i * 32) (12 + (int i + 1) * 32)))
                       [0..<nat numberChannelDescriptions]) (\<lambda>descriptions.
           Inr \<lparr>channelLayoutTag = uint_js mChannelLayoutTag,
                channelBitmap = uint_js mChannelBitmap,
                numberChannelDescriptions = numberChannelDescriptions,
                channelDescriptions = descriptions\<rparr>))"

record ICAFData =
  editCount :: int
  data :: "byte list"

definition parseData :: "byte list \<Rightarrow> ICAFData" where
  "parseData uint8Array =
     (let mEditCount = sliceJS uint8Array 0 4;
          mData = sliceFrom uint8Array 4
      in \<lparr>editCount = uint_js mEditCount, data = mData\<rparr>)"

record ICAFPacketTableHeader =
  numberPackets :: int
  numberValidFrames :: int
  primingFrames :: int
  remainderFrames :: int

definition parsePacketTableHeader :: "byte list \<Rightarrow> error + ICAFPacketTableHeader" where
  "parsePacketTableHeader uint8Array =
     (let mNumberPackets = sliceJS uint8Array 0 8;
          mNumberValidFrames = sliceJS uint8Array 8 16;
          mPrimingFrames = sliceJS uint8Array 16 20;
          mRemainderFrames = sliceJS uint8Array 20 24
      in bindE (int64 mNumberPackets) (\<lambda>np.
         bindE (int64 mNumberValidFrames) (\<lambda>nv.
         bindE (int32 mPrimingFrames) (\<lambda>pf.
         bindE (int32 mRemainderFrames) (\<lambda>rf.
           Inr \<lparr>numberPackets = np, numberValidFrames = nv,
                primingFrames = pf, remainderFrames = rf\<rparr>)))))"

record ICAFPacketTable =
  header :: ICAFPacketTableHeader
  body :: "int list"

definition parsePacketTable :: "byte list \<Rightarrow> error + ICAFPacketTable" where
  "parsePacketTable uint8Array =
     (let headerBytes = sliceJS uint8Array 0 24;
          bodyBytes = sliceFrom uint8Array 24
      in bindE (parsePacketTableHeader headerBytes) (\<lambda>h.
           Inr \<lparr>header = h, body = packetsTable bodyBytes\<rparr>))"

subsection \<open>Traversal (lines 257-300)\<close>

text \<open>\<open>readChunk\<close> is called with a number (\<open>headerNumber\<close>);
  \<open>new Uint8Array(header / 8)\<close> throws a RangeError for a negative length, for one above
  \<open>2 ^ 53 - 1\<close> and for one above \<open>bufferLimit\<close>, for which there is no buffer. The only
  call passes \<open>chunkSize * 8\<close>, so the quotient is exact. The read that follows does not
  look at its result.\<close>

definition readChunk ::
  "limits \<Rightarrow> byte list \<Rightarrow> int \<Rightarrow> error + (byte list \<times> byte list)" where
  "readChunk lim file headerNumber =
     (let len = headerNumber div 8
      in if len < 0 \<or> 2 ^ 53 - 1 < len \<or> int (bufferLimit lim) < len then Inl RangeError
         else Inr (readInto (nat len) file))"

text \<open>What the run prints, in order.\<close>

datatype cafRecord =
    FileHeader ICAFFileHeader
  | ChunkHeader ICAFChunkHeader
  | AudioFormat ICAFAudioFormat
  | ChannelLayout ICAFChannelLayout
  | DataBlock ICAFData
  | PacketTable ICAFPacketTable

text \<open>The four \<open>if\<close> statements on \<open>chunkType\<close> (lines 281-299), in order. The tags are
  "desc", "chan", "data" and "pakt".\<close>

definition parseChunk ::
  "limits \<Rightarrow> ICAFChunkHeader \<Rightarrow> byte list \<Rightarrow> error + cafRecord list" where
  "parseChunk lim chunkHeader chunkContent =
     bindE (if chunkType chunkHeader = [0x64, 0x65, 0x73, 0x63]
            then bindE (parseAudioFormat chunkContent) (\<lambda>r. Inr [AudioFormat r])
            else Inr []) (\<lambda>r1.
     bindE (if chunkType chunkHeader = [0x63, 0x68, 0x61, 0x6e]
            then bindE (parseChannelLayout lim chunkContent) (\<lambda>r. Inr [ChannelLayout r])
            else Inr []) (\<lambda>r2.
     bindE (if chunkType chunkHeader = [0x64, 0x61, 0x74, 0x61]
            then Inr [DataBlock (parseData chunkContent)]
            else Inr []) (\<lambda>r3.
     bindE (if chunkType chunkHeader = [0x70, 0x61, 0x6b, 0x74]
            then bindE (parsePacketTable chunkContent) (\<lambda>r. Inr [PacketTable r])
            else Inr []) (\<lambda>r4.
       Inr (r1 @ r2 @ r3 @ r4)))))"

text \<open>The \<open>while (true)\<close> loop. The result is what was printed, how the loop ended
  (\<open>None\<close> for the \<open>break\<close>, \<open>Some e\<close> for a throw) and the unread rest of the file.\<close>

function cafLoop ::
  "limits \<Rightarrow> byte list \<Rightarrow> cafRecord list \<times> error option \<times> byte list" where
  "cafLoop lim file =
     (case readChunkHeader file of
        Inl e \<Rightarrow> ([], Some e, file)
      | Inr (chunkHeader, file1) \<Rightarrow>
          (case readChunk lim file1 (chunkSize chunkHeader * 8) of
             Inl e \<Rightarrow> ([], Some e, file1)
           | Inr (chunkContent, file2) \<Rightarrow>
               if chunkSize chunkHeader = 0 then ([], None, file2)
               else (case parseChunk lim chunkHeader chunkContent of
                       Inl e \<Rightarrow> ([ChunkHeader chunkHeader], Some e, file2)
                     | Inr records \<Rightarrow>
                         (case cafLoop lim file2 of (out, r, rest) \<Rightarrow>
                            (ChunkHeader chunkHeader # records @ out, r, rest)))))"
  by pat_completeness auto

definition cafRun ::
  "limits \<Rightarrow> byte list \<Rightarrow> cafRecord list \<times> error option \<times> byte list" where
  "cafRun lim file =
     (case readCafHeader file of (cafHeader, file1) \<Rightarrow>
        (case cafLoop lim file1 of (out, r, rest) \<Rightarrow> (FileHeader cafHeader # out, r, rest)))"

section \<open>Container B (parseOgg.ts)\<close>

subsection \<open>Reading with the cache (lines 4-30, 57-92)\<close>

text \<open>The state of a run: the unread bytes of \<open>oggFile\<close> and the global \<open>cache\<close>, the
  list of the buffers pushed since it was last emptied.\<close>

record oggState =
  oggFile :: "byte list"
  cache :: "byte list list"

text \<open>\<open>read\<close> and \<open>readMultiple\<close> throw on \<open>null\<close> and push the whole buffer, also when
  the file filled only its front.\<close>

definition read :: "oggState \<Rightarrow> error + (byte \<times> oggState)" where
  "read st =
     (case fsRead 1 (oggFile st) of
        None \<Rightarrow> Inl UnexpectedEndOfStream
      | Some (byte, rest) \<Rightarrow> Inr (hd byte, \<lparr>oggFile = rest, cache = cache st @ [byte]\<rparr>))"

definition readMultiple :: "oggState \<Rightarrow> nat \<Rightarrow> error + (byte list \<times> oggState)" where
  "readMultiple st n =
     (case fsRead n (oggFile st) of
        None \<Rightarrow> Inl UnexpectedEndOfStream
      | Some (byte, rest) \<Rightarrow> Inr (byte, \<lparr>oggFile = rest, cache = cache st @ [byte]\<rparr>))"

definition getMergedCache :: "oggState \<Rightarrow> byte list" where
  "getMergedCache st = concat (cache st)"

definition uInt32Le :: "byte list \<Rightarrow> error + int" where
  "uInt32Le array = (if length array \<noteq> 4 then Inl InvalidFieldLength else getUint32LE array 0)"

text \<open>\<open>uInt64Le\<close> reads with \<open>getUint32(0, true)\<close>: the low 32 bits.\<close>

definition uInt64Le :: "byte list \<Rightarrow> error + int" where
  "uInt64Le array = (if length array \<noteq> 8 then Inl InvalidFieldLength else getUint32LE array 0)"

subsection \<open>Opus headers (lines 94-195)\<close>

definition opusHeadMagicSignature :: "byte list" where
  "opusHeadMagicSignature = [0x4f, 0x70, 0x75, 0x73, 0x48, 0x65, 0x61, 0x64]"

definition opusCommentMagicSignature :: "byte list" where
  "opusCommentMagicSignature = [0x4f, 0x70, 0x75, 0x73, 0x54, 0x61, 0x67, 0x73]"

record IOpusChannelMapping =
  streamCount :: int
  coupledCount :: int
  channelMapping :: "int list"

record IOpusHeader =
  version :: int
  channelCount :: int
  preSkip :: int
  inputSampleRate :: int
  outputGain :: int
  mappingFamily :: int
  channelMappingOpt :: "IOpusChannelMapping option"

text \<open>The argument is \<open>segments[0]\<close>, \<open>undefined\<close> (\<open>None\<close>) when the page has no segment;
  then \<open>array.buffer\<close> throws a TypeError. The signature loop compares \<open>array[i]\<close>, which
  is \<open>undefined\<close> behind the end of the array, with the eight bytes: it passes exactly
  when the array starts with them.\<close>

definition parseOpusHeader :: "byte list option \<Rightarrow> error + IOpusHeader" where
  "parseOpusHeader arg =
     (case arg of
        None \<Rightarrow> Inl TypeError
      | Some array \<Rightarrow>
          if take 8 array \<noteq> opusHeadMagicSignature then Inl InvalidMagicSignature
          else
            bindE (getUint8 array 8) (\<lambda>version.
            bindE (getUint8 array 9) (\<lambda>channelCount.
            bindE (getUint16LE array 10) (\<lambda>preSkip.
            bindE (getUint32LE array 12) (\<lambda>inputSampleRate.
            bindE (getUint16LE array 16) (\<lambda>outputGain.
            bindE (getUint8 array 18) (\<lambda>mappingFamily.
            bindE (if 19 < length array
                   then bindE (getUint8 array 19) (\<lambda>streamCount.
                        bindE (getUint8 array 20) (\<lambda>coupledCount.
                        bindE (mapE (\<lambda>i. getUint8 array (21 + int i)) [0..<nat channelCount])
                          (\<lambda>channelMappings.
                          Inr (Some \<lparr>streamCount = streamCount, coupledCount = coupledCount,
                                     channelMapping = channelMappings\<rparr>))))
                   else Inr None) (\<lambda>mapping.
              Inr \<lparr>version = version, channelCount = channelCount, preSkip = preSkip,
                   inputSampleRate = inputSampleRate, outputGain = outputGain,
                   mappingFamily = mappingFamily, channelMappingOpt = mapping\<rparr>))))))))"

record IOpusTags =
  vendorString :: "byte list"
  userCommentString :: "byte list list"

text \<open>The \<open>while (commentListLengthLeft > 0)\<close> loop of \<open>parseOpusTags\<close>. The lengths are
  signed (\<open>getInt32\<close>), the sums are sums of Numbers. A comment length of \<open>-4\<close> leaves
  \<open>commentListLengthLeft\<close> as it is and the loop never ends: \<open>None\<close>.\<close>

partial_function (option) tagsLoop ::
  "byte list \<Rightarrow> int \<Rightarrow> int \<Rightarrow> int \<Rightarrow> byte list list \<Rightarrow> (error + byte list list) option" where
  "tagsLoop array vendorStringLength userCommentListLength commentListLengthLeft userCommentStrings =
     (if 0 < commentListLengthLeft then
        (let offset = userCommentListLength - commentListLengthLeft in
         if isl (getInt32LE array (12 + vendorStringLength + 4 + offset))
         then Some (Inl (projl (getInt32LE array (12 + vendorStringLength + 4 + offset))))
         else
           (let userCommentStringLength =
                  projr (getInt32LE array (12 + vendorStringLength + 4 + offset));
                userCommentString =
                  sliceJS array (12 + vendorStringLength + 8 + offset)
                    (12 + vendorStringLength + 8 + offset + userCommentStringLength)
            in tagsLoop array vendorStringLength userCommentListLength
                 (commentListLengthLeft - (userCommentStringLength + 4))
                 (userCommentStrings @ [str userCommentString])))
      else Some (Inr userCommentStrings))"

definition parseOpusTags :: "byte list option \<Rightarrow> (error + IOpusTags) option" where
  "parseOpusTags arg =
     (case arg of
        None \<Rightarrow> Some (Inl TypeError)
      | Some array \<Rightarrow>
          if take 8 array \<noteq> opusCommentMagicSignature then Some (Inl InvalidMagicSignature)
          else
            (case getInt32LE array 8 of
               Inl e \<Rightarrow> Some (Inl e)
             | Inr vendorStringLength \<Rightarrow>
                 (case getInt32LE array (12 + vendorStringLength) of
                    Inl e \<Rightarrow> Some (Inl e)
                  | Inr userCommentListLength \<Rightarrow>
                      (case tagsLoop array vendorStringLength userCommentListLength
                              userCommentListLength [] of
                         None \<Rightarrow> None
                       | Some (Inl e) \<Rightarrow> Some (Inl e)
                       | Some (Inr userCommentStrings) \<Rightarrow>
                           Some (Inr \<lparr>vendorString =
                                        str (sliceJS array 12 (12 + vendorStringLength)),
                                      userCommentString = userCommentStrings\<rparr>)))))"

subsection \<open>The page loop (lines 197-273)\<close>

record IPageReport =
  structureVersion :: byte
  headerType :: byte
  isFreshPacket :: bool
  isBos :: bool
  isBoe :: bool
  absoluteGranulePosition :: int
  streamSerialNumber :: int
  pageSequenceNumber :: int
  pageChecksum :: int
  pageRealChecksum :: int
  checksumPassed :: bool
  pageSegments :: byte
  segmentTable :: "byte list"

text \<open>Lines 199-214: four reads, each compared with its byte of the pattern; a byte that
  differs is followed by \<open>continue\<close> (\<open>False\<close>), which starts the next iteration at the
  byte behind it. The cache is not touched by \<open>continue\<close>.\<close>

definition syncPattern :: "oggState \<Rightarrow> error + (bool \<times> oggState)" where
  "syncPattern st =
     bindE (read st) (\<lambda>(header0, st0).
       if header0 \<noteq> 0x4f then Inr (False, st0) else
     bindE (read st0) (\<lambda>(header1, st1).
       if header1 \<noteq> 0x67 then Inr (False, st1) else
     bindE (read st1) (\<lambda>(header2, st2).
       if header2 \<noteq> 0x67 then Inr (False, st2) else
     bindE (read st2) (\<lambda>(header3, st3).
       if header3 \<noteq> 0x53 then Inr (False, st3) else Inr (True, st3)))))"

text \<open>Lines 237-239: one \<open>readMultiple\<close> for each entry of the segment table.\<close>

fun readSegments :: "oggState \<Rightarrow> byte list \<Rightarrow> error + (byte list list \<times> oggState)" where
  "readSegments st [] = Inr ([], st)"
| "readSegments st (len # table) =
     bindE (readMultiple st (unat len)) (\<lambda>(segment, st1).
     bindE (readSegments st1 table) (\<lambda>(segments, st2). Inr (segment # segments, st2)))"

text \<open>Lines 217-255: the header fields, the checksum of the merged cache as it is after
  the read of the checksum field, the segment table and the segments.\<close>

definition readPage ::
  "oggState \<Rightarrow> error + (IPageReport \<times> byte list list \<times> oggState)" where
  "readPage st =
     bindE (read st) (\<lambda>(structureVersion, st1).
     bindE (read st1) (\<lambda>(headerType, st2).
     bindE (readMultiple st2 8) (\<lambda>(absoluteGranulePosition, st3).
     bindE (readMultiple st3 4) (\<lambda>(streamSerialNumber, st4).
     bindE (readMultiple st4 4) (\<lambda>(pageSequenceNumber, st5).
     bindE (readMultiple st5 4) (\<lambda>(checksumBytes, st6).
     bindE (uInt32Le checksumBytes) (\<lambda>pageChecksum.
     let pageRealChecksum = uint (crc32 (getMergedCache st6)) in
     bindE (read st6) (\<lambda>(pageSegments, st7).
     bindE (readMultiple st7 (unat pageSegments)) (\<lambda>(segmentTable, st8).
     bindE (readSegments st8 segmentTable) (\<lambda>(segments, st9).
     bindE (uInt64Le absoluteGranulePosition) (\<lambda>granule.
     bindE (uInt32Le streamSerialNumber) (\<lambda>serial.
     bindE (uInt32Le pageSequenceNumber) (\<lambda>sequence.
       Inr (\<lparr>structureVersion = structureVersion,
             headerType = headerType,
             isFreshPacket = (headerType AND 0x1 = 0),
             isBos = (drop_bit 1 (headerType AND 0x2) \<noteq> 0),
             isBoe = (drop_bit 2 (headerType AND 0x4) \<noteq> 0),
             absoluteGranulePosition = granule,
             streamSerialNumber = serial,
             pageSequenceNumber = sequence,
             pageChecksum = pageChecksum,
             pageRealChecksum = pageRealChecksum,
             checksumPassed = (pageChecksum = pageRealChecksum),
             pageSegments = pageSegments,
             segmentTable = segmentTable\<rparr>, segments, st9))))))))))))))"

text \<open>What the run prints, in order.\<close>

datatype oggRecord =
    PageReport IPageReport
  | OpusHead IOpusHeader
  | OpusTags IOpusTags

text \<open>\<open>segments[0]\<close>.\<close>

definition firstSegment :: "byte list list \<Rightarrow> byte list option" where
  "firstSegment segments = (case segments of [] \<Rightarrow> None | segment # _ \<Rightarrow> Some segment)"

text \<open>Lines 259-270, after the report is printed: what is printed further and the error
  thrown, if any; \<open>None\<close> when \<open>parseOpusTags\<close> does not return.\<close>

definition dispatch ::
  "IPageReport \<Rightarrow> byte list list \<Rightarrow> (oggRecord list \<times> error option) option" where
  "dispatch report segments =
     (case (if pageSequenceNumber report = 0
            then bindE (parseOpusHeader (firstSegment segments)) (\<lambda>h. Inr [OpusHead h])
            else Inr []) of
        Inl e \<Rightarrow> Some ([], Some e)
      | Inr printed0 \<Rightarrow>
          (case (if pageSequenceNumber report = 1
                 then map_option (\<lambda>r. bindE r (\<lambda>t. Inr [OpusTags t]))
                        (parseOpusTags (firstSegment segments))
                 else Some (Inr [])) of
             None \<Rightarrow> None
           | Some (Inl e) \<Rightarrow> Some (printed0, Some e)
           | Some (Inr printed1) \<Rightarrow>
               if pageSequenceNumber report = 3
               then Some (printed0 @ printed1, Some Stop)
               else Some (printed0 @ printed1, None)))"

text \<open>The \<open>while (true)\<close> loop: it is left by a throw only. The result is what was
  printed and the error thrown; \<open>None\<close> when the run does not return. The cache is
  emptied at the end of an iteration that went through a whole page (line 272).\<close>

function oggLoop :: "oggState \<Rightarrow> (oggRecord list \<times> error) option" where
  "oggLoop st =
     (case syncPattern st of
        Inl e \<Rightarrow> Some ([], e)
      | Inr (found, st1) \<Rightarrow>
          if \<not> found then oggLoop st1
          else
            (case readPage st1 of
               Inl e \<Rightarrow> Some ([], e)
             | Inr (report, segments, st2) \<Rightarrow>
                 (case dispatch report segments of
                    None \<Rightarrow> None
                  | Some (printed, Some e) \<Rightarrow> Some (PageReport report # printed, e)
                  | Some (printed, None) \<Rightarrow>
                      (case oggLoop (st2\<lparr>cache := []\<rparr>) of
                         None \<Rightarrow> None
                       | Some (out, e) \<Rightarrow> Some (PageReport report # printed @ out, e)))))"
  by pat_completeness auto

text \<open>A run starts with the whole file unread and the empty cache.\<close>

definition oggRun :: "byte list \<Rightarrow> (oggRecord list \<times> error) option" where
  "oggRun bytes = oggLoop \<lparr>oggFile = bytes, cache = []\<rparr>"

section \<open>Reference definitions\<close>

text \<open>The standard CRC-32 in the words of its definition, bit by bit: the polynomial
  \<open>0x04C11DB7\<close> bit-reflected, which is the constant \<open>0xEDB88320\<close> of the right-shifting
  round, the initial value all-ones and the final value inverted. It is what the function of
  the program is compared with.\<close>

definition stdRound :: "32 word \<Rightarrow> 32 word" where
  "stdRound c = (if c AND 1 \<noteq> 0 then 0xEDB88320 XOR drop_bit 1 c else drop_bit 1 c)"

definition stdByte :: "32 word \<Rightarrow> byte \<Rightarrow> 32 word" where
  "stdByte crc b = (stdRound ^^ 8) (crc XOR ucast b)"

definition crc32_standard :: "byte list \<Rightarrow> 32 word" where
  "crc32_standard x = foldl stdByte 0xFFFFFFFF x XOR 0xFFFFFFFF"





text \<open>The unsigned 32-bit big-endian value at offset 8 of a channel-layout chunk, the
  number of channel descriptions that the chunk declares.\<close>

definition descriptionCount :: "byte list \<Rightarrow> int" where
  "descriptionCount uint8Array = uint (be_word (take 4 (drop 8 uint8Array)) :: 32 word)"

text \<open>A channel layout that declares two descriptions and holds one and a half: twelve
  header bytes and 48 of the 64 description bytes.\<close>

definition twoDescriptionsTruncated :: "byte list" where
  "twoDescriptionsTruncated = [0, 0, 0, 0, 0, 0, 0, 0, 0, 0, 0, 2] @ replicate 48 0"

text \<open>A runtime for the examples: it has the buffer for up to \<open>2 ^ 32\<close> bytes and holds
  arrays of up to \<open>2 ^ 26\<close> elements.\<close>

definition exampleRuntime :: limits where
  "exampleRuntime = \<lparr>bufferLimit = 2 ^ 32, arrayLimit = 2 ^ 26\<rparr>"

text \<open>Two valid pages without segments, for the examples: version 0, no flag, granule
  position 0, serial number 1, sequence number 2 (\<open>minimalPage\<close>) and 3 (\<open>stopPage\<close>).
  The checksum fields hold the checksums that the container format prescribes for them,
  \<open>0x96c5ba6f\<close> and \<open>0x64c51009\<close>.\<close>

definition minimalPage :: "byte list" where
  "minimalPage = [0x4f, 0x67, 0x67, 0x53, 0, 0] @ replicate 8 0 @ [1, 0, 0, 0] @ [2, 0, 0, 0]
                 @ [0x6f, 0xba, 0xc5, 0x96] @ [0]"

definition stopPage :: "byte list" where
  "stopPage = [0x4f, 0x67, 0x67, 0x53, 0, 0] @ replicate 8 0 @ [1, 0, 0, 0] @ [3, 0, 0, 0]
              @ [0x09, 0x10, 0xc5, 0x64] @ [0]"

text \<open>\<open>consumed st n st'\<close>: from \<open>st\<close> to \<open>st'\<close> the next \<open>n\<close> bytes of the file were
  read, and they were appended to the merged cache.\<close>

definition consumed :: "oggState \<Rightarrow> nat \<Rightarrow> oggState \<Rightarrow> bool" where
  "consumed st n st' \<longleftrightarrow>
     n \<le> length (oggFile st) \<and> oggFile st' = drop n (oggFile st)
     \<and> getMergedCache st' = getMergedCache st @ take n (oggFile st)"

section \<open>Basic facts and termination\<close>

lemma bindE_simps [simp]: "bindE (Inl e) f = Inl e" "bindE (Inr x) f = f x"
  by (simp_all add: bindE_def)

lemma bindE_Inr_iff: "bindE m f = Inr y \<longleftrightarrow> (\<exists>x. m = Inr x \<and> f x = Inr y)"
  by (cases m) simp_all

lemma bindE_Inl_iff: "bindE m f = Inl e \<longleftrightarrow> m = Inl e \<or> (\<exists>x. m = Inr x \<and> f x = Inl e)"
  by (cases m) simp_all

lemma be_word_zeros: "be_word (replicate n 0) = 0"
proof -
  have "foldl (\<lambda>acc b. push_bit 8 acc OR ucast b) (0::'a::len word) (replicate n (0::byte)) = 0"
    by (induction n) simp_all
  then show ?thesis by (simp add: be_word_def)
qed

lemma toNumber_small: "\<bar>k\<bar> < 2 ^ 53 \<Longrightarrow> toNumber k = k"
  by (simp add: toNumber_def)

lemma toNumber_0 [simp]: "toNumber 0 = 0"
  by (simp add: toNumber_def)

lemma readInto_length: "length (snd (readInto n s)) \<le> length s"
  by (simp add: readInto_def fsRead_def split: option.splits)

lemma readInto_Nil: "readInto n [] = (replicate n 0, [])"
  by (simp add: readInto_def fsRead_def)

lemma readInto_Cons: "0 < n \<Longrightarrow> length (snd (readInto n (b # s))) < length (b # s)"
  by (simp add: readInto_def fsRead_def)

lemma readChunkHeader_shrinks:
  assumes "readChunkHeader s = Inr (h, s1)" and "chunkSize h \<noteq> 0"
  shows "length s1 < length s"
proof (cases s)
  case Nil
  with assms show ?thesis
    by (auto simp: readChunkHeader_def readInto_Nil int64_def be_word_zeros)
next
  case (Cons b bs)
  obtain t f1 where r1: "readInto 4 s = (t, f1)" by (cases "readInto 4 s")
  obtain z f2 where r2: "readInto 8 f1 = (z, f2)" by (cases "readInto 8 f1")
  have l1: "length f1 < length s" using readInto_Cons [of 4 b bs] r1 Cons by simp
  have l2: "length f2 \<le> length f1" using readInto_length [of 8 f1] r2 by simp
  from assms(1) r1 r2 have "s1 = f2"
    by (auto simp: readChunkHeader_def bindE_Inr_iff)
  with l1 l2 show ?thesis by simp
qed

lemma readChunk_length: "readChunk lim s n = Inr (c, s') \<Longrightarrow> length s' \<le> length s"
  using readInto_length [of "nat (n div 8)" s]
  by (auto simp: readChunk_def Let_def split: if_splits)

termination cafLoop
proof (relation "measure (\<lambda>(lim, s). length s)")
  show "wf (measure (\<lambda>(lim :: limits, s :: byte list). length s))" by simp
next
  fix lim s x2 chunkHeader s1 x2a chunkContent s2 x2b
  assume "readChunkHeader s = Inr x2" "(chunkHeader, s1) = x2"
    "readChunk lim s1 (chunkSize chunkHeader * 8) = Inr x2a" "(chunkContent, s2) = x2a"
    "chunkSize chunkHeader \<noteq> 0"
  then show "((lim, s2), (lim, s)) \<in> measure (\<lambda>(lim, s). length s)"
    using readChunkHeader_shrinks [of s chunkHeader s1]
      readChunk_length [of lim s1 "chunkSize chunkHeader * 8" chunkContent s2]
    by auto
qed

lemma read_Inr:
  "read st = Inr (b, st') \<longleftrightarrow>
     oggFile st = b # oggFile st' \<and> cache st' = cache st @ [[b]]"
  by (cases st; cases st'; cases "oggFile st")
     (auto simp: read_def fsRead_def split: option.splits)

lemma read_Nil: "oggFile st = [] \<Longrightarrow> read st = Inl UnexpectedEndOfStream"
  by (simp add: read_def fsRead_def)

lemma read_Cons:
  "oggFile st = b # bs \<Longrightarrow> read st = Inr (b, \<lparr>oggFile = bs, cache = cache st @ [[b]]\<rparr>)"
  by (simp add: read_def fsRead_def)

lemma readMultiple_length:
  "readMultiple st n = Inr (bs, st') \<Longrightarrow> length (oggFile st') \<le> length (oggFile st)"
  by (auto simp: readMultiple_def fsRead_def split: option.splits if_splits)

lemma read_length:
  "read st = Inr (b, st') \<Longrightarrow> length (oggFile st') < length (oggFile st)"
  by (simp add: read_Inr)

lemma syncPattern_shrinks:
  assumes "syncPattern st = Inr (found, st1)"
  shows "length (oggFile st1) < length (oggFile st)"
  using assms unfolding syncPattern_def
  by (auto simp: bindE_Inr_iff split: if_splits dest!: read_length)

lemma readSegments_length:
  "readSegments st table = Inr (segs, st') \<Longrightarrow> length (oggFile st') \<le> length (oggFile st)"
proof (induction table arbitrary: st segs st')
  case Nil
  then show ?case by simp
next
  case (Cons len table)
  then show ?case
    by (auto simp: bindE_Inr_iff dest!: readMultiple_length) fastforce
qed

lemma readPage_length:
  assumes "readPage st = Inr (report, segs, st')"
  shows "length (oggFile st') \<le> length (oggFile st)"
  using assms unfolding readPage_def Let_def
  by (auto simp: bindE_Inr_iff dest!: read_length readMultiple_length readSegments_length)

termination oggLoop
proof (relation "measure (\<lambda>st. length (oggFile st))")
  show "wf (measure (\<lambda>st. length (oggFile st)))" by simp
next
  fix st x2 found st1
  assume "syncPattern st = Inr x2" "(found, st1) = x2"
  then show "(st1, st) \<in> measure (\<lambda>st. length (oggFile st))"
    using syncPattern_shrinks [of st found st1] by simp
next
  fix st x2 found st1 x2a report y segments st2 x2b printed yb
  assume "syncPattern st = Inr x2" "(found, st1) = x2"
    "readPage st1 = Inr x2a" "(report, y) = x2a" "(segments, st2) = y"
  then show "(st2\<lparr>cache := []\<rparr>, st) \<in> measure (\<lambda>st. length (oggFile st))"
    using syncPattern_shrinks [of st found st1] readPage_length [of st1 report segments st2]
    by simp
qed

section \<open>The checksum\<close>

lemma funpow8: "(f ^^ 8) x = f (f (f (f (f (f (f (f x)))))))"
  by (simp add: eval_nat_numeral)

lemma crcTable_nth: "i < 256 \<Longrightarrow> crcTable ! i = crcEntry i"
  by (simp add: crcTable_def makeCRCTable_def)

lemma crcStep_eval:
  "crcStep crc b = drop_bit 8 crc XOR crcEntry (unat ((crc XOR ucast b) AND 0xff))"
proof -
  have "(crc XOR ucast b) AND 0xff \<le> 0xff" by (rule word_and_le1)
  then have "unat ((crc XOR ucast b) AND 0xff) < 256" by (simp add: word_le_nat_alt)
  then show ?thesis by (simp add: crcStep_def crcTable_nth)
qed

lemma crcStep_numeral:
  "crcStep (numeral m) (numeral n) =
     drop_bit 8 (numeral m :: 32 word) XOR
     crcEntry (unat (((numeral m :: 32 word) XOR ucast (numeral n :: byte)) AND 0xff))"
  by (rule crcStep_eval)

lemma minus1_word32: "(-1::32 word) = 0xFFFFFFFF"
  by simp

lemma stdByte_numeral:
  "stdByte (numeral m) (numeral n)
     = (stdRound ^^ 8) ((numeral m :: 32 word) XOR ucast (numeral n :: byte))"
  by (simp add: stdByte_def)

lemma crc32_standard_check:
  "crc32_standard [0x31, 0x32, 0x33, 0x34, 0x35, 0x36, 0x37, 0x38, 0x39] = 0xCBF43926"
  by (simp add: crc32_standard_def stdByte_numeral stdRound_def funpow8)

lemma crc32_check:
  "crc32 [0x31, 0x32, 0x33, 0x34, 0x35, 0x36, 0x37, 0x38, 0x39] = 0xFC4F2BE9"
  unfolding crc32_def minus1_word32
  by (simp add: crcStep_numeral crcEntry_def crcRound_def funpow8)

text \<open>
  Claim C1. For the ASCII bytes "123456789" the standard CRC-32 is \<open>0xCBF43926\<close>, and
  \<open>crc32\<close> is to be this function. The function of the program returns \<open>0xFC4F2BE9\<close>
  there: its table is built by the reflected, right-shifting rounds, but with the constant
  \<open>0x04c11db7\<close>, the polynomial in its unreflected form, where these rounds take
  \<open>0xEDB88320\<close>. The loop over the bytes, the initial value and the final inversion are
  those of the standard function.
\<close>

theorem crc32_check_value:
  "crc32 [0x31, 0x32, 0x33, 0x34, 0x35, 0x36, 0x37, 0x38, 0x39] = 0xFC4F2BE9
   \<and> crc32 [0x31, 0x32, 0x33, 0x34, 0x35, 0x36, 0x37, 0x38, 0x39] \<noteq> 0xCBF43926
   \<and> crc32_standard [0x31, 0x32, 0x33, 0x34, 0x35, 0x36, 0x37, 0x38, 0x39] = 0xCBF43926"
  by (simp add: crc32_check crc32_standard_check)

section \<open>The packet table's variable-length integers\<close>




lemma x7f: "(0x7f :: byte) = mask 7" by (simp add: mask_eq_exp_minus_1)





















section \<open>The channel layout\<close>

lemma sliceJS_nonneg:
  "0 \<le> a \<Longrightarrow> a \<le> b \<Longrightarrow> sliceJS xs a b = take (nat b - nat a) (drop (nat a) xs)"
  by (auto simp: sliceJS_def Let_def min_def nat_diff_distrib min.commute)

lemma length_sliceJS:
  "0 \<le> a \<Longrightarrow> a \<le> b \<Longrightarrow> length (sliceJS xs a b) = min (nat b - nat a) (length xs - nat a)"
  by (simp add: sliceJS_nonneg min.commute)

lemma float64_Inl: "float64 s = Inl e \<longleftrightarrow> length s \<noteq> 8 \<and> e = InvalidFieldLength"
  by (auto simp: float64_def)

lemma parseChannelDescription_error:
  "parseChannelDescription s = Inl e \<Longrightarrow> e = InvalidFieldLength"
  by (auto simp: parseChannelDescription_def Let_def bindE_Inl_iff float64_Inl)

lemma parseChannelDescription_short:
  assumes "length s < 32" shows "parseChannelDescription s = Inl InvalidFieldLength"
proof -
  have "length (sliceJS s 24 32) \<noteq> 8" using assms by (simp add: length_sliceJS)
  then have "float64 (sliceJS s 24 32) = Inl InvalidFieldLength" by (simp add: float64_def)
  then have "\<exists>e. parseChannelDescription s = Inl e"
    unfolding parseChannelDescription_def Let_def
    by (cases "float64 (sliceJS s 8 16)"; cases "float64 (sliceJS s 16 24)") simp_all
  then show ?thesis using parseChannelDescription_error by blast
qed

lemma mapE_Inl: "mapE f xs = Inl e \<Longrightarrow> \<exists>x\<in>set xs. f x = Inl e"
  by (induction xs arbitrary: e) (auto simp: bindE_Inl_iff)

lemma mapE_fails: "x \<in> set xs \<Longrightarrow> f x = Inl e \<Longrightarrow> \<exists>e'. mapE f xs = Inl e'"
proof (induction xs)
  case Nil
  then show ?case by simp
next
  case (Cons y ys)
  then show ?case
    by (cases "f y"; cases "mapE f ys") auto
qed

lemma push8_or:
  "push_bit 8 (w :: 'a::len word) OR ucast (x :: byte) = w * 256 + ucast x"
proof -
  have "push_bit 8 w + ucast x = push_bit 8 w OR ucast x"
    by (rule disjunctive_add) (auto simp: bit_simps dest: bit_imp_le_length)
  then show ?thesis by (simp add: push_bit_eq_mult mult.commute)
qed

lemma be_word_4:
  "(be_word [a, b, c, d] :: 32 word)
     = word_of_int (((uint a * 256 + uint b) * 256 + uint c) * 256 + uint d)"
  by (simp add: be_word_def push8_or)

lemma sint_wi_small: "0 \<le> k \<Longrightarrow> k < 2 ^ 31 \<Longrightarrow> sint (word_of_int k :: 32 word) = k"
  by (simp add: signed_of_int signed_take_bit_int_eq_self)

lemma push8_wi: "push_bit 8 (word_of_int k :: 32 word) = word_of_int (k * 256)"
  by (simp add: push_bit_eq_mult)

lemma byte_bounds: "0 \<le> uint (x :: byte)" "uint (x :: byte) < 256"
  using uint_lt2p [of x] by simp_all

lemma sint_wi_add:
  assumes "0 \<le> r" "r < 2 ^ 24" "0 \<le> d" "d < 256"
  shows "sint (word_of_int (r * 256 + d) :: 32 word) = sint (word_of_int (r * 256) :: 32 word) + d"
proof (cases "r < 2 ^ 23")
  case True
  have "sint (word_of_int (r * 256 + d) :: 32 word) = r * 256 + d"
    by (rule sint_wi_small) (use assms True in simp_all)
  moreover have "sint (word_of_int (r * 256) :: 32 word) = r * 256"
    by (rule sint_wi_small) (use assms True in simp_all)
  ultimately show ?thesis by (simp only:)
next
  case False
  have e1: "(r * 256 + d + 2 ^ 31) mod 2 ^ 32 = r * 256 + d + 2 ^ 31 - 2 ^ 32"
    using assms False by (intro int_mod_pos_eq [where q = 1]) simp_all
  have e2: "(r * 256 + 2 ^ 31) mod 2 ^ 32 = r * 256 + 2 ^ 31 - 2 ^ 32"
    using assms False by (intro int_mod_pos_eq [where q = 1]) simp_all
  show ?thesis unfolding int_word_sint using e1 e2 by simp
qed

lemma uintStep_small:
  assumes "0 \<le> r" "r < 2 ^ 23"
  shows "uintStep r x = r * 256 + uint x"
proof -
  have "sint (word_of_int (r * 256) :: 32 word) = r * 256"
    by (rule sint_wi_small) (use assms in simp_all)
  then show ?thesis by (simp only: uintStep_def push8_wi)
qed

lemma uint_js_4:
  "uint_js [a, b, c, d] = sint (be_word [a, b, c, d] :: 32 word)"
proof -
  let ?r = "(uint a * 256 + uint b) * 256 + uint c"
  have b: "0 \<le> uint a" "uint a < 256" "0 \<le> uint b" "uint b < 256"
       "0 \<le> uint c" "uint c < 256" "0 \<le> uint d" "uint d < 256"
    by (simp_all add: byte_bounds)
  have r: "0 \<le> ?r" "?r < 2 ^ 24" using b by simp_all
  have s1: "uintStep 0 a = uint a" by (simp add: uintStep_def)
  have s2: "uintStep (uint a) b = uint a * 256 + uint b"
    using b by (intro uintStep_small) simp_all
  have s3: "uintStep (uint a * 256 + uint b) c = ?r"
    using b by (intro uintStep_small) simp_all
  have s4: "uintStep ?r d = sint (word_of_int (?r * 256) :: 32 word) + uint d"
    by (simp only: uintStep_def push8_wi)
  have "uint_js [a, b, c, d] = sint (word_of_int (?r * 256) :: 32 word) + uint d"
    by (simp only: uint_js_def foldl_Cons foldl_Nil s1 s2 s3 s4)
  also have "\<dots> = sint (word_of_int (?r * 256 + uint d) :: 32 word)"
    using sint_wi_add [OF r b(7,8)] by simp
  finally show ?thesis by (simp only: be_word_4)
qed

lemma sint_as_uint:
  "sint (w :: 32 word) = (if uint w < 2 ^ 31 then uint w else uint w - 2 ^ 32)"
proof -
  have b: "0 \<le> uint w" "uint w < 2 ^ 32" using uint_lt2p [of w] by simp_all
  have s: "sint w = (uint w + 2 ^ 31) mod 2 ^ 32 - 2 ^ 31"
    using int_word_sint [of "uint w", where 'a = 32] by simp
  show ?thesis
  proof (cases "uint w < 2 ^ 31")
    case True
    then have "(uint w + 2 ^ 31) mod 2 ^ 32 = uint w + 2 ^ 31"
      using b by (intro mod_pos_pos_trivial) simp_all
    with s True show ?thesis by simp
  next
    case False
    then have "(uint w + 2 ^ 31) mod 2 ^ 32 = uint w + 2 ^ 31 - 2 ^ 32"
      using b by (intro int_mod_pos_eq [where q = 1]) simp_all
    with s False show ?thesis by simp
  qed
qed

lemma uint_js_length4:
  assumes "length xs = 4" shows "uint_js xs = sint (be_word xs :: 32 word)"
proof -
  from assms obtain a b c d where "xs = [a, b, c, d]"
    by (auto simp: length_Suc_conv eval_nat_numeral)
  then show ?thesis by (simp only: uint_js_4)
qed

lemma parseChannelLayout_error:
  "parseChannelLayout lim u = Inl e \<Longrightarrow>
   e = RangeError \<or> e = HeapExhausted \<or> e = InvalidFieldLength"
  unfolding parseChannelLayout_def Let_def
  by (auto simp: bindE_Inl_iff split: if_splits dest!: mapE_Inl parseChannelDescription_error)

lemma parseChannelLayout_count:
  assumes len: "12 \<le> length u" and small: "descriptionCount u < 2 ^ 31"
  shows "uint_js (sliceJS u 8 12) = descriptionCount u"
proof -
  have sl: "sliceJS u 8 12 = take 4 (drop 8 u)" by (simp add: sliceJS_nonneg)
  have "length (sliceJS u 8 12) = 4" using len by (simp add: sl)
  then show ?thesis
    using small by (simp add: uint_js_length4 sint_as_uint descriptionCount_def sl)
qed

lemma parseChannelLayout_short:
  assumes len: "12 \<le> length u" and short: "int (length u) < 12 + 32 * descriptionCount u"
    and small: "descriptionCount u < 2 ^ 31"
    and fits: "descriptionCount u \<le> int (arrayLimit lim)"
  shows "parseChannelLayout lim u = Inl InvalidFieldLength"
proof -
  let ?n = "uint_js (sliceJS u 8 12)"
  let ?f = "\<lambda>i. parseChannelDescription (sliceJS u (12 + int i * 32) (12 + (int i + 1) * 32))"
  have nn: "?n = descriptionCount u" using len small by (rule parseChannelLayout_count)
  from short len have pos: "1 \<le> descriptionCount u" by simp
  let ?i = "nat (descriptionCount u) - 1"
  have mem: "?i \<in> set [0..<nat ?n]" using pos nn by simp
  define a where "a = 12 + int ?i * 32"
  have a0: "0 \<le> a" by (simp add: a_def)
  have ab: "int (length u) < a + 32" using short pos by (simp add: a_def)
  have "length (sliceJS u a (a + 32)) = min (nat (a + 32) - nat a) (length u - nat a)"
    by (rule length_sliceJS) (use a0 in simp_all)
  also have "\<dots> < 32" using a0 ab by auto
  finally have "length (sliceJS u a (a + 32)) < 32" .
  moreover have "12 + (int ?i + 1) * 32 = a + 32" by (simp add: a_def)
  ultimately have "length (sliceJS u (12 + int ?i * 32) (12 + (int ?i + 1) * 32)) < 32"
    by (simp only: a_def)
  then have "?f ?i = Inl InvalidFieldLength" by (rule parseChannelDescription_short)
  with mem obtain e where e: "mapE ?f [0..<nat ?n] = Inl e"
    using mapE_fails [of ?i "[0..<nat ?n]" ?f InvalidFieldLength] by blast
  then have "e = InvalidFieldLength"
    using mapE_Inl [OF e] parseChannelDescription_error by blast
  with e nn pos fits show ?thesis by (simp add: parseChannelLayout_def Let_def)
qed

text \<open>A count below \<open>2 ^ 31\<close> that is above what the heap holds ends the process while
  the array is filled, whatever the length of the input.\<close>

lemma parseChannelLayout_heap:
  assumes "12 \<le> length u" "descriptionCount u < 2 ^ 31"
    "int (arrayLimit lim) < descriptionCount u"
  shows "parseChannelLayout lim u = Inl HeapExhausted"
proof -
  have "uint_js (sliceJS u 8 12) = descriptionCount u"
    using assms(1,2) by (rule parseChannelLayout_count)
  moreover have "0 \<le> descriptionCount u" by (simp add: descriptionCount_def)
  ultimately show ?thesis using assms(3) by (simp add: parseChannelLayout_def Let_def)
qed

text \<open>
  Claim C8, as the code has it. An input of at least twelve bytes that is shorter than
  \<open>12 + 32 * descriptionCount\<close>, with a count below \<open>2 ^ 31\<close> for which the runtime holds
  the array of the descriptions, makes the channel-layout decoder fail with the error of
  the eight-byte length check of a coordinate (\<open>InvalidFieldLength\<close>). No input makes it
  fail with \<open>TruncatedRecord\<close>.
\<close>

theorem parseChannelLayout_truncated:
  "(12 \<le> length u \<and> int (length u) < 12 + 32 * descriptionCount u
      \<and> descriptionCount u < 2 ^ 31 \<and> descriptionCount u \<le> int (arrayLimit lim)
      \<longrightarrow> parseChannelLayout lim u = Inl InvalidFieldLength)
   \<and> parseChannelLayout lim u \<noteq> Inl TruncatedRecord"
  using parseChannelLayout_short [of u lim] parseChannelLayout_error [of lim u TruncatedRecord]
  by auto

lemma twoDescriptionsTruncated_facts:
  "length twoDescriptionsTruncated = 60" "descriptionCount twoDescriptionsTruncated = 2"
  by (simp_all add: twoDescriptionsTruncated_def descriptionCount_def be_word_def)

theorem parseChannelLayout_truncated_witness:
  "12 \<le> length twoDescriptionsTruncated
   \<and> int (length twoDescriptionsTruncated) < 12 + 32 * descriptionCount twoDescriptionsTruncated
   \<and> descriptionCount twoDescriptionsTruncated < 2 ^ 31
   \<and> descriptionCount twoDescriptionsTruncated \<le> int (arrayLimit exampleRuntime)
   \<and> parseChannelLayout exampleRuntime twoDescriptionsTruncated = Inl InvalidFieldLength"
  using parseChannelLayout_truncated [of twoDescriptionsTruncated exampleRuntime]
  by (simp add: twoDescriptionsTruncated_facts exampleRuntime_def)

text \<open>The claim as it was stated fails on two declared descriptions with one and a half
  present: the error is not \<open>TruncatedRecord\<close>.\<close>

theorem parseChannelLayout_not_TruncatedRecord:
  "descriptionCount twoDescriptionsTruncated = 2
   \<and> length twoDescriptionsTruncated = 12 + 32 + 16
   \<and> parseChannelLayout exampleRuntime twoDescriptionsTruncated = Inl InvalidFieldLength
   \<and> parseChannelLayout exampleRuntime twoDescriptionsTruncated \<noteq> Inl TruncatedRecord"
  using parseChannelLayout_short [of twoDescriptionsTruncated exampleRuntime]
  by (simp add: twoDescriptionsTruncated_facts exampleRuntime_def)

section \<open>The Container-A traversal\<close>

declare cafLoop.simps [simp del]

lemma readInto_append: "length b = n \<Longrightarrow> readInto n (b @ rest) = (b, rest)"
  by (cases "n = 0") (auto simp: readInto_def fsRead_def)

lemma readInto_full: "n \<le> length s \<Longrightarrow> readInto n s = (take n s, drop n s)"
  by (cases "n = 0") (auto simp: readInto_def fsRead_def)

lemma readChunkHeader_append:
  assumes "length tag = 4" "length sz = 8"
  shows "readChunkHeader (tag @ sz @ rest)
           = Inr (\<lparr>chunkType = tag, chunkSize = toNumber (sint (be_word sz :: 64 word))\<rparr>, rest)"
  using assms by (simp add: readChunkHeader_def readInto_append int64_def str_def)

lemma readChunk_append:
  assumes "0 \<le> n" "n \<le> 2 ^ 53 - 1" "n \<le> int (bufferLimit lim)" "length b = nat n"
  shows "readChunk lim (b @ rest) (n * 8) = Inr (b, rest)"
  using assms by (simp add: readChunk_def readInto_append)



lemma exampleRuntime_limits [simp]:
  "bufferLimit exampleRuntime = 2 ^ 32" "arrayLimit exampleRuntime = 2 ^ 26"
  by (simp_all add: exampleRuntime_def)

lemma cafLoop_terminal:
  assumes "length tag = 4"
  shows "cafLoop lim (tag @ replicate 8 0 @ rest) = ([], None, rest)"
proof -
  have h: "readChunkHeader (tag @ replicate 8 0 @ rest) = Inr (\<lparr>chunkType = tag, chunkSize = 0\<rparr>, rest)"
    using readChunkHeader_append [OF assms, of "replicate 8 0" rest] by (simp add: be_word_zeros)
  have c: "readChunk lim rest (0 * 8) = Inr ([], rest)"
    using readChunk_append [of 0 lim "[]" rest] by simp
  show ?thesis by (subst cafLoop.simps) (use h c in simp)
qed

lemma cafLoop_chunk:
  assumes "length tag = 4" "length sz = 8" "sint (be_word sz :: 64 word) = n"
    "0 < n" "n \<le> 2 ^ 53 - 1" "n \<le> int (bufferLimit lim)" "length b = nat n"
    "parseChunk lim \<lparr>chunkType = tag, chunkSize = n\<rparr> b = Inr records"
  shows "cafLoop lim (tag @ sz @ b @ rest)
           = (case cafLoop lim rest of (out, r, rest') \<Rightarrow>
                (ChunkHeader \<lparr>chunkType = tag, chunkSize = n\<rparr> # records @ out, r, rest'))"
proof -
  have "toNumber n = n" using assms(4,5) by (intro toNumber_small) simp
  then have h: "readChunkHeader (tag @ sz @ b @ rest) = Inr (\<lparr>chunkType = tag, chunkSize = n\<rparr>, b @ rest)"
    using readChunkHeader_append [OF assms(1,2), of "b @ rest"] assms(3) by simp
  have c: "readChunk lim (b @ rest) (n * 8) = Inr (b, rest)"
    using readChunk_append [of n lim b rest] assms by simp
  show ?thesis by (subst cafLoop.simps) (use h c assms in simp)
qed

lemma parseAudioFormat_32:
  assumes "length content = 32"
  shows "\<exists>r. parseAudioFormat content = Inr r"
proof -
  have "length (sliceJS content 0 8) = 8" using assms by (simp add: length_sliceJS)
  then show ?thesis by (simp add: parseAudioFormat_def Let_def float64_def)
qed

lemma be32: "sint (be_word [0, 0, 0, 0, 0, 0, 0, 32] :: 64 word) = 32"
  by (simp add: be_word_def)

lemma caf_example:
  assumes "length content = 32" "length tag = 4" "32 \<le> bufferLimit lim"
  shows "\<exists>r. parseAudioFormat content = Inr r \<and>
    cafRun lim ([0x63, 0x61, 0x66, 0x66] @ [0, 1] @ [0, 0]
            @ [0x64, 0x65, 0x73, 0x63] @ [0, 0, 0, 0, 0, 0, 0, 32] @ content
            @ tag @ replicate 8 0 @ rest)
      = ([FileHeader \<lparr>fileType = [0x63, 0x61, 0x66, 0x66], fileVersion = 1, fileFlags = 0\<rparr>,
          ChunkHeader \<lparr>chunkType = [0x64, 0x65, 0x73, 0x63], chunkSize = 32\<rparr>,
          AudioFormat r], None, rest)"
proof -
  from parseAudioFormat_32 [OF assms(1)] obtain r where r: "parseAudioFormat content = Inr r" ..
  let ?rest1 = "[0x64, 0x65, 0x73, 0x63] @ [0, 0, 0, 0, 0, 0, 0, 32] @ content @ tag @ replicate 8 0 @ rest"
  have hdr: "readCafHeader ([0x63, 0x61, 0x66, 0x66] @ [0, 1] @ [0, 0] @ ?rest1)
     = (\<lparr>fileType = [0x63, 0x61, 0x66, 0x66], fileVersion = 1, fileFlags = 0\<rparr>, ?rest1)"
    by (simp add: readCafHeader_def readInto_full str_def uint_js_def uintStep_def)
  have pc: "parseChunk lim \<lparr>chunkType = [0x64, 0x65, 0x73, 0x63], chunkSize = 32\<rparr> content = Inr [AudioFormat r]"
    using r by (simp add: parseChunk_def)
  have lp: "cafLoop lim ?rest1 = ([ChunkHeader \<lparr>chunkType = [0x64, 0x65, 0x73, 0x63], chunkSize = 32\<rparr>, AudioFormat r], None, rest)"
    using cafLoop_chunk [of "[0x64, 0x65, 0x73, 0x63]" "[0, 0, 0, 0, 0, 0, 0, 32]" 32 lim content "[AudioFormat r]" "tag @ replicate 8 0 @ rest"]
      be32 assms(1,3) pc cafLoop_terminal [OF assms(2), of lim rest]
    by simp
  show ?thesis
    unfolding cafRun_def hdr prod.case lp using r by simp
qed

lemma unknown_size:
  "cafLoop lim ([0x64, 0x61, 0x74, 0x61] @ [0xff, 0xff, 0xff, 0xff, 0xff, 0xff, 0xff, 0xff] @ rest)
     = ([], Some RangeError, rest)"
proof -
  have "sint (be_word [0xff, 0xff, 0xff, 0xff, 0xff, 0xff, 0xff, 0xff] :: 64 word) = -1"
    by (simp add: be_word_def)
  then have h: "readChunkHeader ([0x64, 0x61, 0x74, 0x61] @ [0xff, 0xff, 0xff, 0xff, 0xff, 0xff, 0xff, 0xff] @ rest)
     = Inr (\<lparr>chunkType = [0x64, 0x61, 0x74, 0x61], chunkSize = -1\<rparr>, rest)"
    using readChunkHeader_append [of "[0x64, 0x61, 0x74, 0x61]" "[0xff, 0xff, 0xff, 0xff, 0xff, 0xff, 0xff, 0xff]" rest]
    by (simp add: toNumber_small)
  show ?thesis by (subst cafLoop.simps, subst h) (simp add: readChunk_def)
qed





















text \<open>
  Claim C6, as the code has it. A chunk header whose size is zero ends the traversal: the
  loop is left normally, nothing is printed for the chunk and no byte behind the twelve of
  the header is consumed. On a ("caff", 1, 0) header, one "desc" chunk of size 32 and a
  zero-size chunk, with a runtime that has the buffer for the 32 bytes, the run prints the
  file header, the chunk header and exactly one audio format record, ends normally and
  leaves every byte behind the terminal header unread.
\<close>

theorem cafLoop_terminal_chunk:
  "(length tag = 4 \<longrightarrow> cafLoop lim (tag @ replicate 8 0 @ rest) = ([], None, rest))
   \<and> (length content = 32 \<and> length tag = 4 \<and> 32 \<le> bufferLimit lim \<longrightarrow>
        (\<exists>r. parseAudioFormat content = Inr r \<and>
          cafRun lim ([0x63, 0x61, 0x66, 0x66] @ [0, 1] @ [0, 0]
                  @ [0x64, 0x65, 0x73, 0x63] @ [0, 0, 0, 0, 0, 0, 0, 32] @ content
                  @ tag @ replicate 8 0 @ rest)
            = ([FileHeader \<lparr>fileType = [0x63, 0x61, 0x66, 0x66], fileVersion = 1, fileFlags = 0\<rparr>,
                ChunkHeader \<lparr>chunkType = [0x64, 0x65, 0x73, 0x63], chunkSize = 32\<rparr>,
                AudioFormat r], None, rest)))"
  using cafLoop_terminal [of tag lim rest] caf_example [of content tag lim rest] by blast

theorem cafLoop_terminal_chunk_witness:
  "length [0x66, 0x72, 0x65, 0x65 :: byte] = 4
   \<and> cafLoop exampleRuntime ([0x66, 0x72, 0x65, 0x65] @ replicate 8 0 @ [1, 2, 3])
       = ([], None, [1, 2, 3])
   \<and> length (replicate 32 (0 :: byte)) = 32
   \<and> 32 \<le> bufferLimit exampleRuntime
   \<and> (\<exists>r. parseAudioFormat (replicate 32 0) = Inr r \<and>
          cafRun exampleRuntime ([0x63, 0x61, 0x66, 0x66] @ [0, 1] @ [0, 0]
                  @ [0x64, 0x65, 0x73, 0x63] @ [0, 0, 0, 0, 0, 0, 0, 32] @ replicate 32 0
                  @ [0x66, 0x72, 0x65, 0x65] @ replicate 8 0 @ [1, 2, 3])
            = ([FileHeader \<lparr>fileType = [0x63, 0x61, 0x66, 0x66], fileVersion = 1, fileFlags = 0\<rparr>,
                ChunkHeader \<lparr>chunkType = [0x64, 0x65, 0x73, 0x63], chunkSize = 32\<rparr>,
                AudioFormat r], None, [1, 2, 3]))"
proof -
  have l: "length [0x66, 0x72, 0x65, 0x65 :: byte] = 4" "length (replicate 32 (0 :: byte)) = 32"
    "32 \<le> bufferLimit exampleRuntime"
    by simp_all
  from cafLoop_terminal_chunk [of "[0x66, 0x72, 0x65, 0x65]" exampleRuntime "[1, 2, 3]"
      "replicate 32 0"] l
  show ?thesis by blast
qed

text \<open>The claim as it was stated fails on the unknown-size value \<open>-1\<close>: the run does not
  reach the end of the loop, it throws a RangeError.\<close>

theorem cafRun_unknown_size_RangeError:
  "cafRun exampleRuntime ([0x63, 0x61, 0x66, 0x66, 0, 1, 0, 0]
           @ [0x64, 0x61, 0x74, 0x61] @ [0xff, 0xff, 0xff, 0xff, 0xff, 0xff, 0xff, 0xff]
           @ [1, 2, 3])
     = ([FileHeader \<lparr>fileType = [0x63, 0x61, 0x66, 0x66], fileVersion = 1, fileFlags = 0\<rparr>],
        Some RangeError, [1, 2, 3])"
proof -
  have l: "cafLoop exampleRuntime
             ([0x64, 0x61, 0x74, 0x61] @ [0xff, 0xff, 0xff, 0xff, 0xff, 0xff, 0xff, 0xff]
              @ [1, 2, 3]) = ([], Some RangeError, [1, 2, 3])"
    by (rule unknown_size)
  show ?thesis
    using l
    by (simp add: cafRun_def readCafHeader_def readInto_full str_def uint_js_def uintStep_def)
qed

section \<open>The Container-B page loop\<close>

declare oggLoop.simps [simp del]

lemma readMultiple_full:
  "n \<le> length (oggFile st) \<Longrightarrow>
   readMultiple st n = Inr (take n (oggFile st),
     \<lparr>oggFile = drop n (oggFile st), cache = cache st @ [take n (oggFile st)]\<rparr>)"
  by (cases "n = 0") (auto simp: readMultiple_def fsRead_def)

lemma syncPattern_skip:
  assumes "oggFile st = b # rest" "b \<noteq> 0x4f"
  shows "syncPattern st = Inr (False, \<lparr>oggFile = rest, cache = cache st @ [[b]]\<rparr>)"
  using assms by (simp add: syncPattern_def read_Cons)

lemma syncPattern_found:
  assumes "oggFile st = 0x4f # 0x67 # 0x67 # 0x53 # rest"
  shows "syncPattern st
           = Inr (True, \<lparr>oggFile = rest, cache = cache st @ [[0x4f], [0x67], [0x67], [0x53]]\<rparr>)"
  using assms by (simp add: syncPattern_def read_Cons)

lemma oggLoop_skip:
  assumes "oggFile st = b # rest" "b \<noteq> 0x4f"
  shows "oggLoop st = oggLoop \<lparr>oggFile = rest, cache = cache st @ [[b]]\<rparr>"
  by (subst oggLoop.simps) (simp add: syncPattern_skip [OF assms])

lemma oggLoop_eof: "oggFile st = [] \<Longrightarrow> oggLoop st = Some ([], UnexpectedEndOfStream)"
  by (subst oggLoop.simps) (simp add: syncPattern_def read_Nil)

lemma uInt32Le_4: "length bs = 4 \<Longrightarrow> uInt32Le bs = Inr (uint (le_word bs :: 32 word))"
  by (simp add: uInt32Le_def getUint32LE_def viewBytes_def)

lemma uInt64Le_8: "length bs = 8 \<Longrightarrow> uInt64Le bs = Inr (uint (le_word (take 4 bs) :: 32 word))"
  by (simp add: uInt64Le_def getUint32LE_def viewBytes_def)

lemma readPage_no_segments:
  assumes "length gran = 8" "length serial = 4" "length sq = 4" "length crc = 4"
    and "oggFile st = [sver, htype] @ gran @ serial @ sq @ crc @ [0] @ rest"
  shows "\<exists>report. readPage st = Inr (report, [],
            \<lparr>oggFile = rest,
             cache = cache st @ [[sver], [htype], gran, serial, sq, crc, [0], []]\<rparr>)
          \<and> pageSequenceNumber report = uint (le_word sq :: 32 word)
          \<and> pageSegments report = 0
          \<and> pageRealChecksum report
              = uint (crc32 (getMergedCache st @ [sver, htype] @ gran @ serial @ sq @ crc))"
  using assms
  by (simp add: readPage_def read_Cons readMultiple_full uInt32Le_4 uInt64Le_8 Let_def
      getMergedCache_def)

lemma dispatch_no_segments:
  assumes "pageSequenceNumber report = 0 \<or> pageSequenceNumber report = 1"
  shows "dispatch report [] = Some ([], Some TypeError)"
  using assms
  by (auto simp: dispatch_def firstSegment_def parseOpusHeader_def parseOpusTags_def)

lemma oggLoop_page:
  assumes "syncPattern st = Inr (True, st1)" "readPage st1 = Inr (report, segs, st2)"
  shows "oggLoop st =
     (case dispatch report segs of
        None \<Rightarrow> None
      | Some (printed, Some e) \<Rightarrow> Some (PageReport report # printed, e)
      | Some (printed, None) \<Rightarrow>
          (case oggLoop (st2\<lparr>cache := []\<rparr>) of
             None \<Rightarrow> None
           | Some (out, e) \<Rightarrow> Some (PageReport report # printed @ out, e)))"
  by (subst oggLoop.simps) (simp add: assms)

lemma oggLoop_zero_segments:
  assumes "length gran = 8" "length serial = 4" "length crc = 4"
    and "sq = [0, 0, 0, 0] \<or> sq = [1, 0, 0, 0]"
  shows "\<exists>report.
     oggLoop \<lparr>oggFile = [0x4f, 0x67, 0x67, 0x53] @ [sver, htype] @ gran @ serial @ sq @ crc @ [0] @ rest,
              cache = c\<rparr> = Some ([PageReport report], TypeError)
     \<and> pageSegments report = 0
     \<and> pageSequenceNumber report = uint (le_word sq :: 32 word)"
proof -
  let ?st = "\<lparr>oggFile = [0x4f, 0x67, 0x67, 0x53] @ [sver, htype] @ gran @ serial @ sq @ crc @ [0] @ rest,
              cache = c\<rparr>"
  let ?st1 = "\<lparr>oggFile = [sver, htype] @ gran @ serial @ sq @ crc @ [0] @ rest,
               cache = c @ [[0x4f], [0x67], [0x67], [0x53]]\<rparr>"
  have sy: "syncPattern ?st = Inr (True, ?st1)"
    using syncPattern_found [of ?st "[sver, htype] @ gran @ serial @ sq @ crc @ [0] @ rest"] by simp
  have sq4: "length sq = 4" using assms(4) by auto
  from readPage_no_segments [OF assms(1,2) sq4 assms(3), of ?st1 sver htype rest]
  obtain report st2 where rp: "readPage ?st1 = Inr (report, [], st2)"
     and sn: "pageSequenceNumber report = uint (le_word sq :: 32 word)"
     and ps: "pageSegments report = 0"
    by auto
  have "uint (le_word sq :: 32 word) = 0 \<or> uint (le_word sq :: 32 word) = 1"
    using assms(4) by (auto simp: le_word_def be_word_def)
  with sn have "dispatch report [] = Some ([], Some TypeError)"
    by (intro dispatch_no_segments) simp
  with oggLoop_page [OF sy rp] have "oggLoop ?st = Some ([PageReport report], TypeError)" by simp
  with sn ps show ?thesis by blast
qed

text \<open>
  Claim C10. When the page with sequence number 0, or 1, has no segment, the dispatch to
  the Opus identification, or comment, decoder passes \<open>segments[0]\<close>, which is
  \<open>undefined\<close>: the decoder throws a TypeError on \<open>array.buffer\<close>, after the page report
  is printed, and the run ends with this error, which is none of the four errors of the
  taxonomy. The codec-header dispatch needs those pages to carry a segment.
\<close>

theorem zero_segment_codec_page_TypeError:
  "(pageSequenceNumber report0 = 0 \<or> pageSequenceNumber report0 = 1
      \<longrightarrow> dispatch report0 [] = Some ([], Some TypeError))
   \<and> (length gran = 8 \<and> length serial = 4 \<and> length crc = 4
        \<and> (sq = [0, 0, 0, 0] \<or> sq = [1, 0, 0, 0]) \<longrightarrow>
       (\<exists>report.
          oggLoop \<lparr>oggFile = [0x4f, 0x67, 0x67, 0x53] @ [sver, htype] @ gran @ serial @ sq @ crc
                              @ [0] @ rest, cache = c\<rparr>
            = Some ([PageReport report], TypeError)
          \<and> pageSegments report = 0
          \<and> pageSequenceNumber report = uint (le_word sq :: 32 word)))
   \<and> TypeError \<notin> {InvalidFieldLength, InvalidMagicSignature, TruncatedRecord,
                     UnexpectedEndOfStream}"
  using dispatch_no_segments [of report0] oggLoop_zero_segments [of gran serial crc sq sver htype rest c]
  by simp

theorem zero_segment_codec_page_TypeError_witness:
  "(\<exists>report.
      oggLoop \<lparr>oggFile = [0x4f, 0x67, 0x67, 0x53] @ [0, 2] @ replicate 8 0 @ [7, 0, 0, 0]
                          @ [0, 0, 0, 0] @ [0, 0, 0, 0] @ [0] @ [], cache = []\<rparr>
        = Some ([PageReport report], TypeError)
      \<and> pageSegments report = 0 \<and> pageSequenceNumber report = 0)
   \<and> (\<exists>report.
      oggLoop \<lparr>oggFile = [0x4f, 0x67, 0x67, 0x53] @ [0, 0] @ replicate 8 0 @ [7, 0, 0, 0]
                          @ [1, 0, 0, 0] @ [0, 0, 0, 0] @ [0] @ [], cache = []\<rparr>
        = Some ([PageReport report], TypeError)
      \<and> pageSegments report = 0 \<and> pageSequenceNumber report = 1)"
proof -
  have l: "length (replicate 8 (0 :: byte)) = 8" "length [7, 0, 0, 0 :: byte] = 4"
    "length [0, 0, 0, 0 :: byte] = 4" by simp_all
  have v: "uint (le_word [0, 0, 0, 0] :: 32 word) = 0" "uint (le_word [1, 0, 0, 0] :: 32 word) = 1"
    by (simp_all add: le_word_def be_word_def)
  from zero_segment_codec_page_TypeError
    [of undefined "replicate 8 0" "[7, 0, 0, 0]" "[0, 0, 0, 0]" "[0, 0, 0, 0]" 0 2 "[]" "[]"] l v
  have a: "\<exists>report.
      oggLoop \<lparr>oggFile = [0x4f, 0x67, 0x67, 0x53] @ [0, 2] @ replicate 8 0 @ [7, 0, 0, 0]
                          @ [0, 0, 0, 0] @ [0, 0, 0, 0] @ [0] @ [], cache = []\<rparr>
        = Some ([PageReport report], TypeError)
      \<and> pageSegments report = 0 \<and> pageSequenceNumber report = 0"
    by auto
  from zero_segment_codec_page_TypeError
    [of undefined "replicate 8 0" "[7, 0, 0, 0]" "[0, 0, 0, 0]" "[1, 0, 0, 0]" 0 0 "[]" "[]"] l v
  have b: "\<exists>report.
      oggLoop \<lparr>oggFile = [0x4f, 0x67, 0x67, 0x53] @ [0, 0] @ replicate 8 0 @ [7, 0, 0, 0]
                          @ [1, 0, 0, 0] @ [0, 0, 0, 0] @ [0] @ [], cache = []\<rparr>
        = Some ([PageReport report], TypeError)
      \<and> pageSegments report = 0 \<and> pageSequenceNumber report = 1"
    by auto
  from a b show ?thesis by blast
qed

section \<open>Synchronisation, the cache and the end of the run\<close>

lemma crcStep_zero:
  "crcStep (numeral m) 0 =
     drop_bit 8 (numeral m :: 32 word) XOR crcEntry (unat ((numeral m :: 32 word) AND 0xff))"
  "crcStep (numeral m) 1 =
     drop_bit 8 (numeral m :: 32 word) XOR crcEntry (unat (((numeral m :: 32 word) XOR 1) AND 0xff))"
  by (simp_all add: crcStep_eval)

lemmas crc_eval =
  crc32_def minus1_word32 crcStep_numeral crcStep_zero crcEntry_def crcRound_def funpow8

lemma read_Inl: "read st = Inl e \<Longrightarrow> e = UnexpectedEndOfStream"
  by (auto simp: read_def split: option.splits)

lemma readMultiple_Inl: "readMultiple st n = Inl e \<Longrightarrow> e = UnexpectedEndOfStream"
  by (auto simp: readMultiple_def split: option.splits)

lemma readMultiple_Inr:
  assumes "readMultiple st n = Inr (bs, st')"
  shows "length bs = n" "n = 0 \<or> oggFile st \<noteq> []" "oggFile st' = drop n (oggFile st)"
    "cache st' = cache st @ [bs]" "bs = take n (oggFile st) @ replicate (n - length (oggFile st)) 0"
  using assms by (auto simp: readMultiple_def fsRead_def split: option.splits if_splits)

lemma readSegments_Inl: "readSegments st table = Inl e \<Longrightarrow> e = UnexpectedEndOfStream"
  by (induction table arbitrary: st)
     (auto simp: bindE_Inl_iff dest: readMultiple_Inl)

lemma syncPattern_Inl: "syncPattern st = Inl e \<Longrightarrow> e = UnexpectedEndOfStream"
  unfolding syncPattern_def
  by (auto simp: bindE_Inl_iff split: if_splits dest: read_Inl)

lemma read_step:
  assumes "read st = Inr (b, st')"
  shows "oggFile st = b # oggFile st'" "getMergedCache st' = getMergedCache st @ [b]"
  using assms by (simp_all add: read_Inr getMergedCache_def)

lemma read_cases:
  obtains "read st = Inl UnexpectedEndOfStream" | b st' where "read st = Inr (b, st')"
  by (cases "read st") (auto dest: read_Inl)


lemma consumed_trans:
  "consumed st n st' \<Longrightarrow> consumed st' m st'' \<Longrightarrow> consumed st (n + m) st''"
proof -
  assume a: "consumed st n st'" and b: "consumed st' m st''"
  let ?s = "oggFile st"
  from a b have "n + m \<le> length ?s" by (auto simp: consumed_def)
  moreover from a b have "oggFile st'' = drop (n + m) ?s"
    by (simp add: consumed_def add.commute)
  moreover from a b have "getMergedCache st'' = getMergedCache st @ take (n + m) ?s"
    by (simp add: consumed_def take_add)
  ultimately show ?thesis by (simp add: consumed_def)
qed

lemma read_consumed: "read st = Inr (b, st') \<Longrightarrow> consumed st 1 st'"
  by (auto simp: consumed_def read_Inr getMergedCache_def)

lemma readMultiple_consumed:
  assumes "readMultiple st n = Inr (bs, st')" "oggFile st' \<noteq> []"
  shows "consumed st n st'" "bs = take n (oggFile st)"
proof -
  note f = readMultiple_Inr [OF assms(1)]
  from f(3) assms(2) have "n < length (oggFile st)" by auto
  with f show "consumed st n st'" "bs = take n (oggFile st)"
    by (simp_all add: consumed_def getMergedCache_def)
qed

lemma consumed_nonempty: "consumed st n st' \<Longrightarrow> oggFile st' \<noteq> [] \<Longrightarrow> oggFile st \<noteq> []"
  by (auto simp: consumed_def)

lemma readPage_Inr_D:
  assumes "readPage st = Inr (report, segs, st9)"
  obtains v s1 t s2 g s3 sr s4 sq s5 ck s6 n s7 tb s8 where
    "read st = Inr (v, s1)" "read s1 = Inr (t, s2)" "readMultiple s2 8 = Inr (g, s3)"
    "readMultiple s3 4 = Inr (sr, s4)" "readMultiple s4 4 = Inr (sq, s5)"
    "readMultiple s5 4 = Inr (ck, s6)" "read s6 = Inr (n, s7)"
    "readMultiple s7 (unat n) = Inr (tb, s8)" "readSegments s8 tb = Inr (segs, st9)"
    "pageRealChecksum report = uint (crc32 (getMergedCache s6))"
    "uInt32Le sq = Inr (pageSequenceNumber report)"
    "pageSegments report = n" "segmentTable report = tb"
  using assms unfolding readPage_def Let_def
  by (auto simp: bindE_Inr_iff)

lemma readPage_checksum:
  assumes "readPage st = Inr (report, segs, st')"
  shows "23 \<le> length (oggFile st)"
    and "pageRealChecksum report = uint (crc32 (getMergedCache st @ take 22 (oggFile st)))"
proof -
  from assms obtain v s1 t s2 g s3 sr s4 sq s5 ck s6 n s7 where
    r: "read st = Inr (v, s1)" "read s1 = Inr (t, s2)" "readMultiple s2 8 = Inr (g, s3)"
    "readMultiple s3 4 = Inr (sr, s4)" "readMultiple s4 4 = Inr (sq, s5)"
    "readMultiple s5 4 = Inr (ck, s6)" "read s6 = Inr (n, s7)"
    and p: "pageRealChecksum report = uint (crc32 (getMergedCache s6))"
    by (rule readPage_Inr_D)
  have n6: "oggFile s6 \<noteq> []" using read_step(1) [OF r(7)] by simp
  have c6: "consumed s5 4 s6" using readMultiple_consumed(1) [OF r(6) n6] .
  have n5: "oggFile s5 \<noteq> []" using consumed_nonempty [OF c6 n6] .
  have c5: "consumed s4 4 s5" using readMultiple_consumed(1) [OF r(5) n5] .
  have n4: "oggFile s4 \<noteq> []" using consumed_nonempty [OF c5 n5] .
  have c4: "consumed s3 4 s4" using readMultiple_consumed(1) [OF r(4) n4] .
  have n3: "oggFile s3 \<noteq> []" using consumed_nonempty [OF c4 n4] .
  have c3: "consumed s2 8 s3" using readMultiple_consumed(1) [OF r(3) n3] .
  have c2: "consumed s1 1 s2" using read_consumed [OF r(2)] .
  have c1: "consumed st 1 s1" using read_consumed [OF r(1)] .
  have "consumed st (1 + (1 + (8 + (4 + (4 + 4))))) s6"
    by (rule consumed_trans [OF c1 consumed_trans [OF c2 consumed_trans [OF c3
          consumed_trans [OF c4 consumed_trans [OF c5 c6]]]]])
  then have c: "consumed st 22 s6" by simp
  from c n6 show "23 \<le> length (oggFile st)" by (auto simp: consumed_def)
  from c p show "pageRealChecksum report = uint (crc32 (getMergedCache st @ take 22 (oggFile st)))"
    by (simp add: consumed_def)
qed

lemma uInt32Le_total: "length bs = 4 \<Longrightarrow> \<exists>v. uInt32Le bs = Inr v"
  by (simp add: uInt32Le_def getUint32LE_def viewBytes_def)

lemma uInt64Le_total: "length bs = 8 \<Longrightarrow> \<exists>v. uInt64Le bs = Inr v"
  by (simp add: uInt64Le_def getUint32LE_def viewBytes_def)

lemma readPage_Inl:
  assumes "readPage st = Inl e" shows "e = UnexpectedEndOfStream"
  using assms unfolding readPage_def Let_def
  by (auto simp: bindE_Inl_iff dest: read_Inl readMultiple_Inl readSegments_Inl
      dest!: readMultiple_Inr(1) uInt32Le_total uInt64Le_total)

lemma syncPattern_True:
  assumes "syncPattern st = Inr (True, st1)"
  shows "consumed st 4 st1" "take 4 (oggFile st) = [0x4f, 0x67, 0x67, 0x53]"
proof -
  from assms obtain b0 s0 where r0: "read st = Inr (b0, s0)"
    by (cases st rule: read_cases) (auto simp: syncPattern_def)
  from assms r0 have e0: "b0 = 0x4f" by (auto simp: syncPattern_def split: if_splits)
  from assms r0 e0 obtain b1 s1 where r1: "read s0 = Inr (b1, s1)"
    by (cases s0 rule: read_cases) (auto simp: syncPattern_def)
  from assms r0 r1 e0 have e1: "b1 = 0x67" by (auto simp: syncPattern_def split: if_splits)
  from assms r0 r1 e0 e1 obtain b2 s2 where r2: "read s1 = Inr (b2, s2)"
    by (cases s1 rule: read_cases) (auto simp: syncPattern_def)
  from assms r0 r1 r2 e0 e1 have e2: "b2 = 0x67" by (auto simp: syncPattern_def split: if_splits)
  from assms r0 r1 r2 e0 e1 e2 obtain b3 s3 where r3: "read s2 = Inr (b3, s3)"
    by (cases s2 rule: read_cases) (auto simp: syncPattern_def)
  from assms r0 r1 r2 r3 e0 e1 e2 have e3: "b3 = 0x53" "st1 = s3"
    by (auto simp: syncPattern_def split: if_splits)
  have c: "consumed st (1 + (1 + (1 + 1))) s3"
    by (rule consumed_trans [OF read_consumed [OF r0] consumed_trans [OF read_consumed [OF r1]
          consumed_trans [OF read_consumed [OF r2] read_consumed [OF r3]]]])
  have "(1::nat) + (1 + (1 + 1)) = 4" by simp
  with c e3(2) show "consumed st 4 st1" by (simp only:)
  show "take 4 (oggFile st) = [0x4f, 0x67, 0x67, 0x53]"
    using read_step(1) [OF r0] read_step(1) [OF r1] read_step(1) [OF r2] read_step(1) [OF r3]
      e0 e1 e2 e3 by simp
qed

lemma page_checksum:
  assumes "syncPattern st = Inr (True, st1)" "readPage st1 = Inr (report, segs, st2)"
  shows "27 \<le> length (oggFile st)" "take 4 (oggFile st) = [0x4f, 0x67, 0x67, 0x53]"
    "pageRealChecksum report = uint (crc32 (getMergedCache st @ take 26 (oggFile st)))"
proof -
  note c = syncPattern_True [OF assms(1)]
  note p = readPage_checksum [OF assms(2)]
  from c(1) p(1) show "27 \<le> length (oggFile st)" by (auto simp: consumed_def)
  show "take 4 (oggFile st) = [0x4f, 0x67, 0x67, 0x53]" by (rule c(2))
  have "take 26 (oggFile st) = take 4 (oggFile st) @ take 22 (drop 4 (oggFile st))"
    using take_add [of 4 22 "oggFile st"] by simp
  with c(1) p(2)
  show "pageRealChecksum report = uint (crc32 (getMergedCache st @ take 26 (oggFile st)))"
    by (simp add: consumed_def)
qed

lemma oggLoop_skip_all:
  "\<forall>b\<in>set skipped. b \<noteq> 0x4f \<Longrightarrow>
   oggLoop \<lparr>oggFile = skipped @ rest, cache = c\<rparr>
     = oggLoop \<lparr>oggFile = rest, cache = c @ map (\<lambda>b. [b]) skipped\<rparr>"
proof (induction skipped arbitrary: c)
  case Nil
  then show ?case by simp
next
  case (Cons b bs)
  have "oggLoop \<lparr>oggFile = (b # bs) @ rest, cache = c\<rparr>
          = oggLoop \<lparr>oggFile = bs @ rest, cache = c @ [[b]]\<rparr>"
    using Cons.prems oggLoop_skip [of "\<lparr>oggFile = (b # bs) @ rest, cache = c\<rparr>" b "bs @ rest"]
    by simp
  also have "\<dots> = oggLoop \<lparr>oggFile = rest, cache = (c @ [[b]]) @ map (\<lambda>b. [b]) bs\<rparr>"
    using Cons.prems by (intro Cons.IH) simp
  finally show ?case by simp
qed

lemma oggLoop_short:
  "length (oggFile st) < 27 \<Longrightarrow> oggLoop st = Some ([], UnexpectedEndOfStream)"
proof (induction st rule: oggLoop.induct)
  case (1 st)
  show ?case
  proof (cases "syncPattern st")
    case (Inl e)
    then show ?thesis using syncPattern_Inl [OF Inl] by (subst oggLoop.simps) simp
  next
    case (Inr p)
    obtain found st1 where p: "p = (found, st1)" by (cases p)
    show ?thesis
    proof (cases found)
      case False
      have "length (oggFile st1) < 27"
        using syncPattern_shrinks [of st found st1] Inr p "1.prems" by simp
      then have "oggLoop st1 = Some ([], UnexpectedEndOfStream)"
        using "1.IH"(1) [of p found st1] Inr p False by simp
      then show ?thesis using Inr p False by (subst oggLoop.simps) simp
    next
      case True
      show ?thesis
      proof (cases "readPage st1")
        case (Inl e)
        then show ?thesis
          using readPage_Inl [OF Inl] Inr p True by (subst oggLoop.simps) simp
      next
        case rp: (Inr q)
        obtain report segs st2 where "q = (report, segs, st2)" by (cases q)
        with rp Inr p True have "27 \<le> length (oggFile st)"
          using page_checksum(1) [of st st1 report segs st2] by simp
        with "1.prems" show ?thesis by simp
      qed
    qed
  qed
qed

lemma dispatch_plain:
  assumes "pageSequenceNumber report \<notin> {0, 1, 3}"
  shows "dispatch report segs = Some ([], None)"
  using assms by (simp add: dispatch_def)



lemma oggLoop_plain_page:
  assumes "syncPattern st = Inr (True, st1)" "readPage st1 = Inr (report, segs, st2)"
    and "pageSequenceNumber report \<notin> {0, 1, 3}"
  shows "oggLoop st = (case oggLoop (st2\<lparr>cache := []\<rparr>) of
                         None \<Rightarrow> None
                       | Some (out, e) \<Rightarrow> Some (PageReport report # out, e))"
  using oggLoop_page [OF assms(1,2)] dispatch_plain [OF assms(3), of segs]
  by (simp cong: option.case_cong)


lemma readPage_zero_segments:
  assumes "length gran = 8" "length serial = 4" "length sq = 4" "length crc = 4"
    and "oggFile st = [sver, htype] @ gran @ serial @ sq @ crc @ [0] @ rest"
  shows "readPage st = Inr
     (\<lparr>structureVersion = sver, headerType = htype,
       isFreshPacket = (htype AND 0x1 = 0),
       isBos = (drop_bit 1 (htype AND 0x2) \<noteq> 0),
       isBoe = (drop_bit 2 (htype AND 0x4) \<noteq> 0),
       absoluteGranulePosition = uint (le_word (take 4 gran) :: 32 word),
       streamSerialNumber = uint (le_word serial :: 32 word),
       pageSequenceNumber = uint (le_word sq :: 32 word),
       pageChecksum = uint (le_word crc :: 32 word),
       pageRealChecksum
         = uint (crc32 (getMergedCache st @ [sver, htype] @ gran @ serial @ sq @ crc)),
       checksumPassed = (uint (le_word crc :: 32 word)
         = uint (crc32 (getMergedCache st @ [sver, htype] @ gran @ serial @ sq @ crc))),
       pageSegments = 0, segmentTable = []\<rparr>, [],
      \<lparr>oggFile = rest,
       cache = cache st @ [[sver], [htype], gran, serial, sq, crc, [0], []]\<rparr>)"
  using assms
  by (simp add: readPage_def read_Cons readMultiple_full uInt32Le_4 uInt64Le_8 Let_def
      getMergedCache_def)

lemma zeros8: "replicate 8 (0 :: byte) = [0, 0, 0, 0, 0, 0, 0, 0]"
  by (simp add: eval_nat_numeral)

lemma minimalPage_bytes:
  "minimalPage = [0x4f, 0x67, 0x67, 0x53, 0, 0, 0, 0, 0, 0, 0, 0, 0, 0, 1, 0, 0, 0, 2, 0, 0, 0,
                  0x6f, 0xba, 0xc5, 0x96, 0]"
  by (simp add: minimalPage_def zeros8)

lemma stopPage_bytes:
  "stopPage = [0x4f, 0x67, 0x67, 0x53, 0, 0, 0, 0, 0, 0, 0, 0, 0, 0, 1, 0, 0, 0, 3, 0, 0, 0,
               0x09, 0x10, 0xc5, 0x64, 0]"
  by (simp add: stopPage_def zeros8)

lemma minimalPage_sync:
  "syncPattern \<lparr>oggFile = minimalPage @ rest, cache = c\<rparr>
     = Inr (True, \<lparr>oggFile = [0, 0] @ replicate 8 0 @ [1, 0, 0, 0] @ [2, 0, 0, 0]
                               @ [0x6f, 0xba, 0xc5, 0x96] @ [0] @ rest,
                    cache = c @ [[0x4f], [0x67], [0x67], [0x53]]\<rparr>)"
  using syncPattern_found [of "\<lparr>oggFile = minimalPage @ rest, cache = c\<rparr>"
      "[0, 0] @ replicate 8 0 @ [1, 0, 0, 0] @ [2, 0, 0, 0] @ [0x6f, 0xba, 0xc5, 0x96] @ [0] @ rest"]
  by (simp add: minimalPage_def)


lemma le_values:
  "uint (le_word [1, 0, 0, 0] :: 32 word) = 1" "uint (le_word [2, 0, 0, 0] :: 32 word) = 2"
  "uint (le_word [3, 0, 0, 0] :: 32 word) = 3" "uint (le_word [0, 0, 0, 0] :: 32 word) = 0"
  "uint (le_word [0x6f, 0xba, 0xc5, 0x96] :: 32 word) = 2529540719"
  "uint (le_word [0x09, 0x10, 0xc5, 0x64] :: 32 word) = 1690636297"
  by (simp_all add: le_word_def be_word_def)

lemma minimalPage_read:
  "readPage \<lparr>oggFile = [0, 0] @ replicate 8 0 @ [1, 0, 0, 0] @ [2, 0, 0, 0]
                         @ [0x6f, 0xba, 0xc5, 0x96] @ [0] @ rest,
              cache = c @ [[0x4f], [0x67], [0x67], [0x53]]\<rparr>
   = Inr (\<lparr>structureVersion = 0, headerType = 0, isFreshPacket = True, isBos = False,
           isBoe = False, absoluteGranulePosition = 0, streamSerialNumber = 1,
           pageSequenceNumber = 2, pageChecksum = 2529540719,
           pageRealChecksum = uint (crc32 (concat c @ take 26 minimalPage)),
           checksumPassed = (2529540719 = uint (crc32 (concat c @ take 26 minimalPage))),
           pageSegments = 0, segmentTable = []\<rparr>, [],
          \<lparr>oggFile = rest,
           cache = c @ [[0x4f], [0x67], [0x67], [0x53], [0], [0], replicate 8 0, [1, 0, 0, 0],
                        [2, 0, 0, 0], [0x6f, 0xba, 0xc5, 0x96], [0], []]\<rparr>)"
proof -
  have t: "concat c @ take 26 minimalPage
     = getMergedCache \<lparr>oggFile = [0, 0] @ replicate 8 0 @ [1, 0, 0, 0] @ [2, 0, 0, 0]
                         @ [0x6f, 0xba, 0xc5, 0x96] @ [0] @ rest,
              cache = c @ [[0x4f], [0x67], [0x67], [0x53]]\<rparr>
       @ [0, 0] @ replicate 8 0 @ [1, 0, 0, 0] @ [2, 0, 0, 0] @ [0x6f, 0xba, 0xc5, 0x96]"
    by (simp add: getMergedCache_def minimalPage_bytes zeros8)
  show ?thesis
    unfolding t
    by (subst readPage_zero_segments [where gran = "replicate 8 0" and serial = "[1, 0, 0, 0]"
          and sq = "[2, 0, 0, 0]" and crc = "[0x6f, 0xba, 0xc5, 0x96]" and sver = 0 and htype = 0
          and rest = rest])
       (simp_all add: le_values zeros8)
qed


lemma crc_values:
  "uint (crc32 (take 26 minimalPage)) = 4171103418"
  "uint (crc32 ([1, 2, 3] @ take 26 minimalPage)) = 4206009539"
  "uint (crc32 ([0, 0, 0] @ take 26 minimalPage)) = 4292762291"
  "uint (crc32 (take 26 stopPage)) = 4242227932"
  "uint (crc32 (1 # 2 # 3 # take 26 minimalPage)) = 4206009539"
  "uint (crc32 (0 # 0 # 0 # take 26 minimalPage)) = 4292762291"
  by (simp_all add: minimalPage_bytes stopPage_bytes crc_eval)

lemma oggLoop_minimalPage:
  "oggLoop \<lparr>oggFile = minimalPage @ rest, cache = c\<rparr>
     = (case oggLoop \<lparr>oggFile = rest, cache = []\<rparr> of
          None \<Rightarrow> None
        | Some (out, e) \<Rightarrow>
            Some (PageReport
              \<lparr>structureVersion = 0, headerType = 0, isFreshPacket = True, isBos = False,
               isBoe = False, absoluteGranulePosition = 0, streamSerialNumber = 1,
               pageSequenceNumber = 2, pageChecksum = 2529540719,
               pageRealChecksum = uint (crc32 (concat c @ take 26 minimalPage)),
               checksumPassed = (2529540719 = uint (crc32 (concat c @ take 26 minimalPage))),
               pageSegments = 0, segmentTable = []\<rparr> # out, e))"
  by (subst oggLoop_plain_page [OF minimalPage_sync minimalPage_read]) simp_all




text \<open>
  Claim C3. The scanner is to synchronise wherever the capture pattern appears, and three
  garbage bytes before a valid page without segments are to give exactly one page report.
  With the garbage bytes \<open>0x00 0x00 0x4f\<close> the run reports no page: the third garbage
  byte starts a match, the first byte of the pattern is read as its second byte and
  dropped with it, and the scan goes on behind it. With the garbage bytes
  \<open>0x00 0x00 0x00\<close> the page is reported.
\<close>

theorem pattern_after_partial_match_missed:
  "oggRun ([0, 0, 0x4f] @ minimalPage) = Some ([], UnexpectedEndOfStream)
   \<and> oggRun ([0, 0, 0] @ minimalPage) = Some ([PageReport \<lparr>structureVersion = 0, headerType = 0, isFreshPacket = True,
           isBos = False, isBoe = False, absoluteGranulePosition = 0, streamSerialNumber = 1,
           pageSequenceNumber = 2, pageChecksum = 2529540719, pageRealChecksum = 4292762291,
           checksumPassed = False, pageSegments = 0, segmentTable = []\<rparr>], UnexpectedEndOfStream)"
proof -
  have s1: "syncPattern \<lparr>oggFile = 0x4f # minimalPage, cache = [[0], [0]]\<rparr>
              = Inr (False, \<lparr>oggFile = tl minimalPage, cache = [[0], [0], [0x4f], [0x4f]]\<rparr>)"
    by (simp add: syncPattern_def read_Cons minimalPage_bytes)
  have "oggRun ([0, 0, 0x4f] @ minimalPage)
          = oggLoop \<lparr>oggFile = 0x4f # minimalPage, cache = [[0], [0]]\<rparr>"
    unfolding oggRun_def using oggLoop_skip_all [of "[0, 0]" "0x4f # minimalPage" "[]"] by simp
  also have "\<dots> = oggLoop \<lparr>oggFile = tl minimalPage, cache = [[0], [0], [0x4f], [0x4f]]\<rparr>"
    by (subst oggLoop.simps) (simp add: s1)
  also have "\<dots> = Some ([], UnexpectedEndOfStream)"
    by (rule oggLoop_short) (simp add: minimalPage_bytes)
  finally have a: "oggRun ([0, 0, 0x4f] @ minimalPage) = Some ([], UnexpectedEndOfStream)" .
  have "oggRun ([0, 0, 0] @ minimalPage)
          = oggLoop \<lparr>oggFile = minimalPage @ [], cache = [] @ map (\<lambda>b. [b]) [0, 0, 0]\<rparr>"
    unfolding oggRun_def using oggLoop_skip_all [of "[0, 0, 0]" minimalPage "[]"] by simp
  also have "\<dots> = Some ([PageReport \<lparr>structureVersion = 0, headerType = 0, isFreshPacket = True,
           isBos = False, isBoe = False, absoluteGranulePosition = 0, streamSerialNumber = 1,
           pageSequenceNumber = 2, pageChecksum = 2529540719, pageRealChecksum = 4292762291,
           checksumPassed = False, pageSegments = 0, segmentTable = []\<rparr>], UnexpectedEndOfStream)"
    by (subst oggLoop_minimalPage) (simp add: oggLoop_eof crc_values)
  finally show ?thesis using a by simp
qed








section \<open>The Opus comment header\<close>


lemma getInt32LE_isl:
  "isl (getInt32LE array off) \<longleftrightarrow> off < 0 \<or> int (length array) < off + 4"
  by (auto simp: getInt32LE_def viewBytes_def)












end
